theory Spec2Isabelle
  imports Complex_Main
begin

section \<open>JavaScript values, exceptions and effects\<close>

text \<open>
  The plugin is TypeScript; its types are erased when it runs. A field that the
  interface declares may still be \<open>undefined\<close> or \<open>null\<close> at run time, and reading a
  property of such a value throws a \<open>TypeError\<close>. Fields that the code dereferences are
  therefore \<open>option\<close>s: \<open>None\<close> stands for \<open>undefined\<close>/\<open>null\<close>.

  A JavaScript string is a sequence of code units and \<open>.length\<close> counts them; a
  \<open>string\<close> here is that sequence, one \<open>char\<close> per code unit.
\<close>

datatype js_error =
    Error string          \<comment> \<open>\<open>new Error(message)\<close>\<close>
  | TypeError string      \<comment> \<open>property read on \<open>undefined\<close>/\<open>null\<close>, value not iterable, failed fetch\<close>
  | SyntaxError string    \<comment> \<open>\<open>response.json()\<close> on a body that is not JSON\<close>

datatype role = User | Assistant | System

record author =
  username :: string
  bot :: "bool option"

text \<open>
  \<open>interface Message\<close>. The system entry that \<open>generateResponse\<close> builds has only
  \<open>role\<close> and \<open>content\<close>, so \<open>author\<close> is optional too.
\<close>

record message =
  content :: "string option"
  author :: "author option"
  role :: role

text \<open>A value of the declared type \<open>Message\<close>: every field present.\<close>

definition Message :: "string \<Rightarrow> author \<Rightarrow> role \<Rightarrow> message" where
  "Message c a r = \<lparr>content = Some c, author = Some a, role = r\<rparr>"

text \<open>\<open>interface OpenRouterResponse\<close>; token counts are the non-negative integers the API reports.\<close>

record choice_message =
  cm_content :: string
  cm_role :: string

record choice =
  cmessage :: "choice_message option"
  finish_reason :: string
  index :: nat

record usage =
  prompt_tokens :: nat
  completion_tokens :: nat
  total_tokens :: nat

record OpenRouterResponse =
  rid :: string
  choices :: "choice list option"
  rmodel :: string
  rusage :: "usage option"

text \<open>The body handed to \<open>JSON.stringify\<close>, and the request handed to \<open>fetch\<close>.\<close>

record request_body =
  model :: string
  messages :: "message list"
  temperature :: rat
  max_tokens :: nat
  stream :: bool

record request =
  url :: string
  http_method :: string
  headers :: "(string \<times> string) list"
  body :: request_body

text \<open>
  What \<open>fetch\<close> resolves to: \<open>ok\<close>, \<open>status\<close>, and the results of \<open>text()\<close> and
  \<open>json()\<close>, each of which may reject. \<open>json()\<close> may resolve to \<open>null\<close> (\<open>None\<close>).
\<close>

record http_response =
  ok :: bool
  status :: nat
  text_result :: "js_error + string"
  json_result :: "js_error + OpenRouterResponse option"

datatype toast_type = FAILURE | INFO | SUCCESS

text \<open>Everything the plugin does to the outside, in the order it does it.\<close>

datatype event =
    ConsoleError string js_error    \<comment> \<open>\<open>console.error(label, error)\<close>\<close>
  | ConsoleLog string               \<comment> \<open>\<open>console.log(text)\<close>\<close>
  | ShowToast string toast_type     \<comment> \<open>\<open>showToast(text, {type})\<close>\<close>
  | GetMessages string              \<comment> \<open>\<open>MessageStore.getMessages(channelId)\<close>\<close>
  | Fetch request                   \<comment> \<open>\<open>fetch(url, init)\<close>\<close>
  | SendBotMessage string string    \<comment> \<open>\<open>sendBotMessage(channelId, {content})\<close>\<close>
  | InsertText string               \<comment> \<open>\<open>insertTextIntoChatInputBox(text)\<close>\<close>

text \<open>
  An \<open>async\<close> function either resolves (\<open>Inr\<close>) or rejects (\<open>Inl\<close>), and leaves a
  trace of events. \<open>try_catch\<close> is \<open>try { ... } catch (error) { ... }\<close>.
\<close>

type_synonym 'a io = "(js_error + 'a) \<times> event list"

definition return :: "'a \<Rightarrow> 'a io" where
  "return x = (Inr x, [])"

definition throw :: "js_error \<Rightarrow> 'a io" where
  "throw e = (Inl e, [])"

definition emit :: "event \<Rightarrow> unit io" where
  "emit ev = (Inr (), [ev])"

definition bind :: "'a io \<Rightarrow> ('a \<Rightarrow> 'b io) \<Rightarrow> 'b io" where
  "bind m f = (case m of
      (Inl e, t) \<Rightarrow> (Inl e, t)
    | (Inr x, t) \<Rightarrow> (case f x of (r, t') \<Rightarrow> (r, t @ t')))"

definition try_catch :: "'a io \<Rightarrow> (js_error \<Rightarrow> 'a io) \<Rightarrow> 'a io" where
  "try_catch m h = (case m of
      (Inl e, t) \<Rightarrow> (case h e of (r, t') \<Rightarrow> (r, t @ t'))
    | (Inr x, t) \<Rightarrow> (Inr x, t))"

definition lift :: "js_error + 'a \<Rightarrow> 'a io" where
  "lift r = (r, [])"

section \<open>JavaScript numbers and their rendering\<close>

text \<open>
  A finite Number is an IEEE 754 double and is modelled by its exact rational value.
  An arithmetic operation returns the exact result rounded to the nearest double, ties
  to the even significand. The numbers of this program are 0 or lie well inside the
  normal range, where a double has 53 significant bits and any exponent.
\<close>

text \<open>The number of binary digits of \<open>n\<close>.\<close>

fun bitlen :: "nat \<Rightarrow> nat" where
  "bitlen n = (if n = 0 then 0 else Suc (bitlen (n div 2)))"

declare bitlen.simps [simp del]

text \<open>For \<open>0 < x\<close>, the integer \<open>e\<close> with \<open>2 ^ e \<le> x < 2 ^ (e + 1)\<close>.\<close>

definition ilog2 :: "rat \<Rightarrow> int" where
  "ilog2 x =
     (case quotient_of x of (a, b) \<Rightarrow>
        (let e = int (bitlen (nat a)) - int (bitlen (nat b))
         in if 2 powi e \<le> x then e else e - 1))"

definition round_half_even :: "rat \<Rightarrow> int" where
  "round_half_even q =
     (let f = \<lfloor>q\<rfloor>; d = q - of_int f
      in if d < 1 / 2 then f
         else if 1 / 2 < d then f + 1
         else if even f then f else f + 1)"

text \<open>The double nearest to a non-negative rational.\<close>

definition fl :: "rat \<Rightarrow> rat" where
  "fl x =
     (if x = 0 then 0
      else (let ulp = 2 powi (ilog2 x - 52)
            in of_int (round_half_even (x / ulp)) * ulp))"

text \<open>The unit roundoff: rounding moves a number by at most this fraction of itself.\<close>

definition unit_roundoff :: rat where
  "unit_roundoff = 1 / 2 ^ 53"

definition fdiv :: "rat \<Rightarrow> rat \<Rightarrow> rat" where
  "fdiv x y = fl (x / y)"

definition fmul :: "rat \<Rightarrow> rat \<Rightarrow> rat" where
  "fmul x y = fl (x * y)"

definition fadd :: "rat \<Rightarrow> rat \<Rightarrow> rat" where
  "fadd x y = fl (x + y)"

text \<open>
  The decimal digits of a natural number: what a template literal prints for a Number
  that is a natural number below \<open>2^53\<close>, as a status code or a token count is.
\<close>

definition digit :: "nat \<Rightarrow> char" where
  "digit d = ''0123456789'' ! d"

fun show_nat :: "nat \<Rightarrow> string" where
  "show_nat n =
     (if n < 10 then [digit n]
      else show_nat (n div 10) @ [digit (n mod 10)])"

declare show_nat.simps [simp del]

text \<open>
  \<open>Number.prototype.toFixed(f)\<close> for \<open>0 \<le> x < 10^21\<close>: the integer \<open>n\<close> with
  \<open>n / 10^f\<close> nearest to \<open>x\<close> (the larger one of two), its digits padded with zeros to
  \<open>f + 1\<close> places, and a point before the last \<open>f\<close>.
\<close>

definition fixed_digits :: "nat \<Rightarrow> nat \<Rightarrow> string" where
  "fixed_digits n f =
     (let m = show_nat n;
          m' = replicate (f + 1 - length m) CHR ''0'' @ m;
          k = length m'
      in if f = 0 then m' else take (k - f) m' @ ''.'' @ drop (k - f) m')"

definition toFixed :: "rat \<Rightarrow> nat \<Rightarrow> string" where
  "toFixed x f = fixed_digits (nat \<lfloor>x * 10 ^ f + 1 / 2\<rfloor>) f"

text \<open>
  Reading a printed number back: the value of a string of decimal digits, and of a
  decimal fraction with a point. They are not part of the plugin; they say which number
  a printed string shows.
\<close>

definition digit_value :: "char \<Rightarrow> nat" where
  "digit_value c = length (takeWhile (\<lambda>d. d \<noteq> c) ''0123456789'')"

definition read_nat :: "string \<Rightarrow> nat" where
  "read_nat s = foldl (\<lambda>a c. 10 * a + digit_value c) 0 s"

definition read_fixed :: "string \<Rightarrow> rat" where
  "read_fixed s =
     (let ip = takeWhile (\<lambda>c. c \<noteq> CHR ''.'') s;
          fp = drop 1 (dropWhile (\<lambda>c. c \<noteq> CHR ''.'') s)
      in of_nat (read_nat (ip @ fp)) / 10 ^ length fp)"

section \<open>native.ts: estimateTokens\<close>

text \<open>
  \<^verbatim>\<open>for (const message of messages) { totalChars += message.content.length; }\<close>
  Reading \<open>.length\<close> of a missing \<open>content\<close> throws.
\<close>

fun count_chars :: "nat \<Rightarrow> message list \<Rightarrow> js_error + nat" where
  "count_chars totalChars [] = Inr totalChars"
| "count_chars totalChars (m # ms) =
     (case content m of
        None \<Rightarrow> Inl (TypeError ''Cannot read properties of undefined (reading 'length')'')
      | Some c \<Rightarrow> count_chars (totalChars + length c) ms)"

text \<open>The \<open>try\<close> block. \<open>messages\<close> that is \<open>undefined\<close> is not iterable.\<close>

definition estimateTokens_try :: "message list option \<Rightarrow> js_error + int" where
  "estimateTokens_try msgs =
     (case msgs of
        None \<Rightarrow> Inl (TypeError ''messages is not iterable'')
      | Some ms \<Rightarrow>
          (case count_chars 0 ms of
             Inl e \<Rightarrow> Inl e
           | Inr totalChars \<Rightarrow> Inr \<lceil>(of_nat totalChars :: rat) / 4\<rceil>))"

definition estimateTokens :: "message list option \<Rightarrow> int io" where
  "estimateTokens msgs =
     try_catch (lift (estimateTokens_try msgs))
       (\<lambda>error. bind (emit (ConsoleError ''Error estimating tokens:'' error)) (\<lambda>_. return 0))"

section \<open>native.ts: formatDebugInfo\<close>

definition newline :: string where
  "newline = [CHR 0x0A]"

text \<open>
  The \<open>try\<close> block. Destructuring a missing response, or reading a token count of a
  missing \<open>usage\<close>, throws. The literals \<open>0.0001\<close> and \<open>0.0002\<close> are the doubles
  nearest to them; \<open>1000\<close> and the token counts are exact.
\<close>

definition totalCost :: "usage \<Rightarrow> rat" where
  "totalCost u =
     (let promptCost = fmul (fdiv (of_nat (prompt_tokens u)) 1000) (fl (1 / 10000));
          completionCost = fmul (fdiv (of_nat (completion_tokens u)) 1000) (fl (2 / 10000))
      in fadd promptCost completionCost)"

text \<open>The cost formula in exact arithmetic, to compare the printed cost with.\<close>

definition exact_cost :: "usage \<Rightarrow> rat" where
  "exact_cost u =
     of_nat (prompt_tokens u) / 1000 * (1 / 10000) + of_nat (completion_tokens u) / 1000 * (2 / 10000)"

definition formatDebugInfo_try :: "OpenRouterResponse option \<Rightarrow> js_error + string" where
  "formatDebugInfo_try response =
     (case response of
        None \<Rightarrow> Inl (TypeError ''Cannot destructure property 'model' of 'response' as it is null.'')
      | Some r \<Rightarrow>
          (case rusage r of
             None \<Rightarrow> Inl (TypeError ''Cannot read properties of undefined (reading 'prompt_tokens')'')
           | Some u \<Rightarrow>
               Inr (''**Debug Info:**'' @ newline
                  @ ''- Model: '' @ rmodel r @ newline
                  @ ''- Prompt Tokens: '' @ show_nat (prompt_tokens u) @ newline
                  @ ''- Completion Tokens: '' @ show_nat (completion_tokens u) @ newline
                  @ ''- Total Tokens: '' @ show_nat (total_tokens u) @ newline
                  @ ''- Estimated Cost: $'' @ toFixed (totalCost u) 6 @ '' (Free)'')))"

definition formatDebugInfo :: "OpenRouterResponse option \<Rightarrow> string io" where
  "formatDebugInfo response =
     try_catch (lift (formatDebugInfo_try response))
       (\<lambda>error. bind (emit (ConsoleError ''Error formatting debug info:'' error))
                   (\<lambda>_. return ''Error generating debug info''))"

section \<open>native.ts: generateResponse\<close>

text \<open>
  The network is a parameter: what \<open>fetch\<close> does with a request, a rejection or a
  response. The unused first parameter of the source is left out.
\<close>

type_synonym network = "request \<Rightarrow> js_error + http_response"

definition system_message :: "string \<Rightarrow> message" where
  "system_message systemPrompt = \<lparr>content = Some systemPrompt, author = None, role = System\<rparr>"

text \<open>\<open>allMessages\<close> after the two \<open>push\<close>es.\<close>

definition allMessages :: "message list \<Rightarrow> string \<Rightarrow> message list" where
  "allMessages msgs systemPrompt =
     (let all0 = [];
          all1 = (if systemPrompt \<noteq> [] then all0 @ [system_message systemPrompt] else all0)
      in all1 @ msgs)"

definition completion_request :: "string \<Rightarrow> string \<Rightarrow> message list \<Rightarrow> string \<Rightarrow> request" where
  "completion_request apiKey mdl msgs systemPrompt =
     \<lparr>url = ''https://openrouter.ai/api/v1/chat/completions'',
      http_method = ''POST'',
      headers = [(''Content-Type'', ''application/json''),
                 (''Authorization'', ''Bearer '' @ apiKey),
                 (''HTTP-Referer'', ''https://vencord.dev/''),
                 (''X-Title'', ''Vencord GPT Plugin'')],
      body = \<lparr>model = mdl,
              messages = allMessages msgs systemPrompt,
              temperature = 7 / 10,
              max_tokens = 1024,
              stream = False\<rparr>\<rparr>"

definition api_error :: "nat \<Rightarrow> string \<Rightarrow> js_error" where
  "api_error st errorText = Error (''OpenRouter API error ('' @ show_nat st @ ''): '' @ errorText)"

definition generateResponse_try ::
  "network \<Rightarrow> string \<Rightarrow> string \<Rightarrow> message list \<Rightarrow> string \<Rightarrow> OpenRouterResponse option io" where
  "generateResponse_try net apiKey mdl msgs systemPrompt =
     (let req = completion_request apiKey mdl msgs systemPrompt
      in bind (emit (Fetch req)) (\<lambda>_.
         bind (lift (net req)) (\<lambda>response.
           if \<not> ok response
           then bind (lift (text_result response)) (\<lambda>errorText.
                  throw (api_error (status response) errorText))
           else lift (json_result response))))"

definition generateResponse ::
  "network \<Rightarrow> string \<Rightarrow> string \<Rightarrow> message list \<Rightarrow> string \<Rightarrow> OpenRouterResponse option io" where
  "generateResponse net apiKey mdl msgs systemPrompt =
     try_catch (generateResponse_try net apiKey mdl msgs systemPrompt)
       (\<lambda>error. bind (emit (ConsoleError ''Error in generateResponse:'' error)) (\<lambda>_. throw error))"

section \<open>index.tsx: settings and the host\<close>

datatype chat_scope = dms | channels | both

datatype output_mode = ephemeral | typebar

text \<open>
  \<open>settings.store\<close>. The selected model is \<open>modelId\<close> here, as \<open>model\<close> is the
  field of the request body.
\<close>

record settings =
  contextLength :: int
  modelId :: string
  chatScope :: chat_scope
  systemInstructions :: string
  outputMode :: output_mode
  showDebugInfo :: bool
  showTokenCount :: bool
  logErrors :: bool
  apiKey :: string

text \<open>
  A message of the host's cache, as far as the plugin reads it, and the cache itself:
  \<open>MessageStore.getMessages(channelId)?.toArray()\<close>, \<open>None\<close> when there is nothing
  to call \<open>toArray\<close> on. The array is in the host's order, oldest first.
\<close>

record host_author =
  h_username :: string
  h_bot :: "bool option"

record host_message =
  h_content :: "string option"
  h_author :: "host_author option"

text \<open>A cached message as the host has it, with its author.\<close>

definition HostMessage :: "string option \<Rightarrow> host_author \<Rightarrow> host_message" where
  "HostMessage c a = \<lparr>h_content = c, h_author = Some a\<rparr>"

type_synonym message_store = "string \<Rightarrow> host_message list option"

record channel =
  channel_id :: string
  guild_id :: "string option"

text \<open>\<open>Boolean(channel.guild_id)\<close>: a missing or empty id is falsy.\<close>

definition isGuildChannel :: "channel \<Rightarrow> bool" where
  "isGuildChannel ch = (case guild_id ch of None \<Rightarrow> False | Some g \<Rightarrow> g \<noteq> [])"

section \<open>index.tsx: getChatContext\<close>

text \<open>
  \<open>Array.prototype.slice(start)\<close> with an integer \<open>start\<close>: a negative start counts
  from the end, and both are clamped to the array.
\<close>

definition slice :: "'a list \<Rightarrow> int \<Rightarrow> 'a list" where
  "slice xs start =
     (let len = int (length xs);
          k = (if start < 0 then max (len + start) 0 else min start len)
      in drop (nat k) xs)"

text \<open>The entry that \<open>map\<close> builds from a cached message and its author.\<close>

definition context_entry :: "string option \<Rightarrow> host_author \<Rightarrow> message" where
  "context_entry c a =
     \<lparr>content = c, author = Some \<lparr>username = h_username a, bot = h_bot a\<rparr>, role = User\<rparr>"

text \<open>\<open>contextMessages.map(msg => ...)\<close>; reading \<open>username\<close> of a missing author throws.\<close>

fun format_messages :: "host_message list \<Rightarrow> js_error + message list" where
  "format_messages [] = Inr []"
| "format_messages (msg # rest) =
     (case h_author msg of
        None \<Rightarrow> Inl (TypeError ''Cannot read properties of undefined (reading 'username')'')
      | Some a \<Rightarrow>
          (case format_messages rest of
             Inl e \<Rightarrow> Inl e
           | Inr ms \<Rightarrow> Inr (context_entry (h_content msg) a # ms)))"

text \<open>\<open>MessageStore.getMessages(channelId)?.toArray() || []\<close>\<close>

definition cached :: "message_store \<Rightarrow> string \<Rightarrow> host_message list" where
  "cached store channelId = (case store channelId of None \<Rightarrow> [] | Some arr \<Rightarrow> arr)"

definition getChatContext_try :: "message_store \<Rightarrow> string \<Rightarrow> int \<Rightarrow> message list io" where
  "getChatContext_try store channelId ctxLength =
     bind (emit (GetMessages channelId)) (\<lambda>_.
       (let msgs = cached store channelId;
            contextMessages = slice msgs (- ctxLength)
        in lift (format_messages contextMessages)))"

definition getChatContext :: "message_store \<Rightarrow> string \<Rightarrow> int \<Rightarrow> message list io" where
  "getChatContext store channelId ctxLength =
     try_catch (getChatContext_try store channelId ctxLength)
       (\<lambda>error. bind (emit (ConsoleError ''Error getting chat context:'' error)) (\<lambda>_. return []))"

section \<open>index.tsx: generateAIResponse\<close>

text \<open>The result \<open>{ text, response }\<close>; \<open>None\<close> is \<open>null\<close>.\<close>

type_synonym ai_result = "(string \<times> OpenRouterResponse) option"

definition failed_to_generate :: "ai_result io" where
  "failed_to_generate =
     bind (emit (ShowToast ''Failed to generate response'' FAILURE)) (\<lambda>_. return None)"

text \<open>The block under \<open>if (showDebugInfo || showTokenCount)\<close>.\<close>

definition show_debug :: "settings \<Rightarrow> OpenRouterResponse \<Rightarrow> unit io" where
  "show_debug s r =
     (if showDebugInfo s \<or> showTokenCount s
      then bind (formatDebugInfo (Some r)) (\<lambda>debugInfo.
           bind (emit (ConsoleLog debugInfo)) (\<lambda>_.
             if showTokenCount s
             then (case rusage r of
                     None \<Rightarrow> throw (TypeError ''Cannot read properties of undefined (reading 'total_tokens')'')
                   | Some u \<Rightarrow>
                       emit (ShowToast (''Generated response ('' @ show_nat (total_tokens u) @ '' tokens)'') SUCCESS))
             else return ()))
      else return ())"

text \<open>What follows the call of the API: the check of the choices and the extraction.\<close>

definition extract_text :: "settings \<Rightarrow> OpenRouterResponse option \<Rightarrow> ai_result io" where
  "extract_text s response =
     (case response of
        None \<Rightarrow> failed_to_generate
      | Some r \<Rightarrow>
          (case choices r of
             None \<Rightarrow> failed_to_generate
           | Some [] \<Rightarrow> failed_to_generate
           | Some (c0 # _) \<Rightarrow>
               (case cmessage c0 of
                  None \<Rightarrow> throw (TypeError ''Cannot read properties of undefined (reading 'content')'')
                | Some m \<Rightarrow>
                    (let generatedText = cm_content m
                     in bind (show_debug s r) (\<lambda>_. return (Some (generatedText, r)))))))"

definition generateAIResponse_try ::
  "settings \<Rightarrow> message_store \<Rightarrow> network \<Rightarrow> string \<Rightarrow> ai_result io" where
  "generateAIResponse_try s store net channelId =
     (if apiKey s = []
      then bind (emit (ShowToast ''Please set your OpenRouter API key in the plugin settings'' FAILURE))
             (\<lambda>_. return None)
      else bind (getChatContext store channelId (contextLength s)) (\<lambda>context.
        if length context = 0
        then bind (emit (ShowToast ''No messages found to generate context'' FAILURE)) (\<lambda>_. return None)
        else bind (emit (ShowToast ''Generating AI response...'' INFO)) (\<lambda>_.
             bind (generateResponse net (apiKey s) (modelId s) context (systemInstructions s))
               (extract_text s))))"

definition generateAIResponse ::
  "settings \<Rightarrow> message_store \<Rightarrow> network \<Rightarrow> string \<Rightarrow> ai_result io" where
  "generateAIResponse s store net channelId =
     try_catch (generateAIResponse_try s store net channelId)
       (\<lambda>error.
          bind (if logErrors s then emit (ConsoleError ''Error generating AI response:'' error)
                else return ()) (\<lambda>_.
          bind (emit (ShowToast ''Error generating AI response'' FAILURE)) (\<lambda>_.
          return None)))"

section \<open>index.tsx: the command and the popover button\<close>

definition scope_mismatch :: "settings \<Rightarrow> channel \<Rightarrow> bool" where
  "scope_mismatch s ch =
     ((isGuildChannel ch \<and> chatScope s = dms) \<or> (\<not> isGuildChannel ch \<and> chatScope s = channels))"

text \<open>The delivery of a result, written out in the command and again in the button.\<close>

definition deliver :: "settings \<Rightarrow> channel \<Rightarrow> ai_result \<Rightarrow> unit io" where
  "deliver s ch result =
     (case result of
        None \<Rightarrow> return ()
      | Some (text, response) \<Rightarrow>
          if outputMode s = ephemeral
          then bind (if showDebugInfo s
                     then bind (formatDebugInfo (Some response)) (\<lambda>d. return (newline @ newline @ d))
                     else return []) (\<lambda>suffix.
               emit (SendBotMessage (channel_id ch) (text @ suffix)))
          else emit (InsertText text))"

definition execute_try :: "settings \<Rightarrow> message_store \<Rightarrow> network \<Rightarrow> channel \<Rightarrow> unit io" where
  "execute_try s store net ch =
     (if scope_mismatch s ch
      then emit (SendBotMessage (channel_id ch)
             ''AI responses are not enabled for this type of channel. Check your plugin settings.'')
      else bind (generateAIResponse s store net (channel_id ch)) (deliver s ch))"

definition execute :: "settings \<Rightarrow> message_store \<Rightarrow> network \<Rightarrow> channel \<Rightarrow> unit io" where
  "execute s store net ch =
     try_catch (execute_try s store net ch)
       (\<lambda>error.
          bind (if logErrors s then emit (ConsoleError ''Error in /respond command:'' error)
                else return ()) (\<lambda>_.
          emit (SendBotMessage (channel_id ch)
             ''Error generating AI response. Check console for details.'')))"

text \<open>
  The button that \<open>renderMessagePopoverButton\<close> returns, \<open>None\<close> for \<open>null\<close>.
  \<open>onClick\<close> is what a click does, with the settings, the cache and the network of the
  moment of the click; the handler captures the channel only and checks no scope.
\<close>

record popover_button =
  label :: string
  icon :: string
  pb_message :: host_message
  pb_channel :: channel
  onClick :: "settings \<Rightarrow> message_store \<Rightarrow> network \<Rightarrow> unit io"

definition renderMessagePopoverButton ::
  "settings \<Rightarrow> host_message \<Rightarrow> channel \<Rightarrow> popover_button option" where
  "renderMessagePopoverButton s msg ch =
     (if scope_mismatch s ch then None
      else Some \<lparr>label = ''AI Response'',
                 icon = ''robot'',
                 pb_message = msg,
                 pb_channel = ch,
                 onClick = (\<lambda>s' store net.
                   bind (generateAIResponse s' store net (channel_id ch)) (deliver s' ch))\<rparr>)"

text \<open>
  Readings of a trace: the requests sent, the texts delivered to the chat (as a bot message
  or into the compose box), the channels whose cache was read, and the console errors.
\<close>

fun requests :: "event list \<Rightarrow> request list" where
  "requests [] = []"
| "requests (Fetch r # t) = r # requests t"
| "requests (_ # t) = requests t"

fun outputs :: "event list \<Rightarrow> string list" where
  "outputs [] = []"
| "outputs (SendBotMessage _ x # t) = x # outputs t"
| "outputs (InsertText x # t) = x # outputs t"
| "outputs (_ # t) = outputs t"

fun cache_reads :: "event list \<Rightarrow> string list" where
  "cache_reads [] = []"
| "cache_reads (GetMessages c # t) = c # cache_reads t"
| "cache_reads (_ # t) = cache_reads t"

fun console_errors :: "event list \<Rightarrow> (string \<times> js_error) list" where
  "console_errors [] = []"
| "console_errors (ConsoleError l e # t) = (l, e) # console_errors t"
| "console_errors (_ # t) = console_errors t"

section \<open>Sample inputs\<close>

text \<open>A channel with five cached messages, one of them written by a bot, a configuration, and
  three behaviours of the remote API.\<close>

definition ann :: host_author where
  "ann = \<lparr>h_username = ''ann'', h_bot = None\<rparr>"

definition helper_bot :: host_author where
  "helper_bot = \<lparr>h_username = ''helper'', h_bot = Some True\<rparr>"

definition five_messages :: "(string option \<times> host_author) list" where
  "five_messages = [(Some ''one'', ann), (Some ''two'', helper_bot), (Some ''three'', ann),
                    (Some ''four'', ann), (Some ''five'', ann)]"

definition sample_store :: message_store where
  "sample_store c = (if c = ''42'' then Some (map (\<lambda>(c, a). HostMessage c a) five_messages) else None)"

definition sample_settings :: settings where
  "sample_settings =
     \<lparr>contextLength = 20, modelId = ''google/gemini-flash-1.5-8b-exp'', chatScope = both,
      systemInstructions = ''Be concise.'', outputMode = ephemeral, showDebugInfo = False,
      showTokenCount = False, logErrors = False, apiKey = ''or-key''\<rparr>"

definition dm_channel :: channel where
  "dm_channel = \<lparr>channel_id = ''42'', guild_id = None\<rparr>"

definition guild_channel :: channel where
  "guild_channel = \<lparr>channel_id = ''42'', guild_id = Some ''7''\<rparr>"

definition unauthorized :: network where
  "unauthorized req =
     Inr \<lparr>ok = False, status = 401, text_result = Inr ''Unauthorized'',
          json_result = Inl (SyntaxError ''Unexpected token U in JSON at position 0'')\<rparr>"

definition sample_usage :: usage where
  "sample_usage = \<lparr>prompt_tokens = 100, completion_tokens = 50, total_tokens = 150\<rparr>"

definition reply :: "choice list \<Rightarrow> OpenRouterResponse" where
  "reply cs = \<lparr>rid = ''gen-1'', choices = Some cs, rmodel = ''google/gemini-flash-1.5-8b-exp'',
               rusage = Some sample_usage\<rparr>"

definition answering :: "choice list \<Rightarrow> network" where
  "answering cs req =
     Inr \<lparr>ok = True, status = 200, text_result = Inr ''{}'', json_result = Inr (Some (reply cs))\<rparr>"

definition hello_choice :: choice where
  "hello_choice = \<lparr>cmessage = Some \<lparr>cm_content = ''hello'', cm_role = ''assistant''\<rparr>,
                    finish_reason = ''stop'', index = 0\<rparr>"

definition five_entries :: "message list" where
  "five_entries = [context_entry (Some ''one'') ann, context_entry (Some ''two'') helper_bot,
                   context_entry (Some ''three'') ann, context_entry (Some ''four'') ann,
                   context_entry (Some ''five'') ann]"

definition broken_store :: message_store where
  "broken_store c = Some [\<lparr>h_content = Some ''orphan'', h_author = None\<rparr>]"

section \<open>Traces of the combinators and of the helpers\<close>

lemmas io_defs = return_def throw_def emit_def bind_def try_catch_def lift_def

lemma requests_append: "requests (t @ t') = requests t @ requests t'"
  by (induction t rule: requests.induct) auto

lemma outputs_append: "outputs (t @ t') = outputs t @ outputs t'"
  by (induction t rule: outputs.induct) auto

lemma cache_reads_append: "cache_reads (t @ t') = cache_reads t @ cache_reads t'"
  by (induction t rule: cache_reads.induct) auto

lemma getChatContext_cases:
  "getChatContext store ch L =
     (case format_messages (slice (cached store ch) (- L)) of
        Inl e \<Rightarrow> (Inr [], [GetMessages ch, ConsoleError ''Error getting chat context:'' e])
      | Inr ms \<Rightarrow> (Inr ms, [GetMessages ch]))"
  by (simp add: getChatContext_def getChatContext_try_def io_defs split: sum.splits)

lemma getChatContext_total:
  "\<exists>ctx t. getChatContext store ch L = (Inr ctx, t) \<and> requests t = [] \<and> outputs t = []"
  by (simp add: getChatContext_cases split: sum.splits)

lemma generateResponse_cases:
  "generateResponse net k m msgs p =
     (let req = completion_request k m msgs p in
      case net req of
        Inl e \<Rightarrow> (Inl e, [Fetch req, ConsoleError ''Error in generateResponse:'' e])
      | Inr r \<Rightarrow>
          if \<not> ok r
          then (case text_result r of
                  Inl e \<Rightarrow> (Inl e, [Fetch req, ConsoleError ''Error in generateResponse:'' e])
                | Inr txt \<Rightarrow> (Inl (api_error (status r) txt),
                     [Fetch req, ConsoleError ''Error in generateResponse:'' (api_error (status r) txt)]))
          else (case json_result r of
                  Inl e \<Rightarrow> (Inl e, [Fetch req, ConsoleError ''Error in generateResponse:'' e])
                | Inr v \<Rightarrow> (Inr v, [Fetch req])))"
  by (simp add: generateResponse_def generateResponse_try_def io_defs Let_def split: sum.splits)

lemma requests_generateResponse:
  "requests (snd (generateResponse net k m msgs p)) = [completion_request k m msgs p]"
  by (simp add: generateResponse_cases Let_def split: sum.splits)

lemma outputs_generateResponse:
  "outputs (snd (generateResponse net k m msgs p)) = []"
  by (simp add: generateResponse_cases Let_def split: sum.splits)

lemma formatDebugInfo_cases:
  "formatDebugInfo response =
     (case formatDebugInfo_try response of
        Inl e \<Rightarrow> (Inr ''Error generating debug info'', [ConsoleError ''Error formatting debug info:'' e])
      | Inr x \<Rightarrow> (Inr x, []))"
  by (simp add: formatDebugInfo_def io_defs split: sum.splits)

lemma formatDebugInfo_total:
  "\<exists>d t. formatDebugInfo response = (Inr d, t) \<and> requests t = [] \<and> outputs t = []"
  by (simp add: formatDebugInfo_cases split: sum.splits)

lemma extract_text_quiet:
  "requests (snd (extract_text s response)) = [] \<and> outputs (snd (extract_text s response)) = []"
proof -
  obtain d t where d: "\<And>r. response = Some r \<Longrightarrow> formatDebugInfo (Some r) = (Inr d, t) \<and> requests t = [] \<and> outputs t = []"
    using formatDebugInfo_total [of response] by (cases response) auto
  show ?thesis
    by (cases response)
      (auto simp: extract_text_def failed_to_generate_def show_debug_def io_defs Let_def
            requests_append outputs_append
        split: option.splits list.splits sum.splits prod.splits dest!: d)
qed

lemma fst_bind: "fst (bind m f) = (case fst m of Inl e \<Rightarrow> Inl e | Inr x \<Rightarrow> fst (f x))"
  by (cases m) (auto simp: bind_def split: sum.splits prod.splits)

lemma snd_bind: "snd (bind m f) = (case fst m of Inl e \<Rightarrow> snd m | Inr x \<Rightarrow> snd m @ snd (f x))"
  by (cases m) (auto simp: bind_def split: sum.splits prod.splits)

lemma fst_try_catch: "fst (try_catch m h) = (case fst m of Inl e \<Rightarrow> fst (h e) | Inr x \<Rightarrow> Inr x)"
  by (cases m) (auto simp: try_catch_def split: sum.splits prod.splits)

lemma snd_try_catch: "snd (try_catch m h) = (case fst m of Inl e \<Rightarrow> snd m @ snd (h e) | Inr x \<Rightarrow> snd m)"
  by (cases m) (auto simp: try_catch_def split: sum.splits prod.splits)

lemma generateAIResponse_total: "\<exists>r. fst (generateAIResponse s store net cid) = Inr r"
  by (simp add: generateAIResponse_def fst_try_catch fst_bind emit_def return_def split: sum.splits)

lemma requests_generateAIResponse_try:
  assumes "getChatContext store cid (contextLength s) = (Inr ctx, t)"
  shows "requests (snd (generateAIResponse_try s store net cid)) =
           (if apiKey s = [] \<or> ctx = [] then []
            else [completion_request (apiKey s) (modelId s) ctx (systemInstructions s)])"
proof -
  have t: "requests t = []"
    using getChatContext_total [of store cid "contextLength s"] assms by auto
  show ?thesis
    using assms t
    by (simp add: generateAIResponse_try_def snd_bind fst_bind requests_append
          requests_generateResponse extract_text_quiet emit_def return_def split: sum.splits)
qed

lemma requests_generateAIResponse:
  assumes "getChatContext store cid (contextLength s) = (Inr ctx, t)"
  shows "requests (snd (generateAIResponse s store net cid)) =
           (if apiKey s = [] \<or> ctx = [] then []
            else [completion_request (apiKey s) (modelId s) ctx (systemInstructions s)])"
  using requests_generateAIResponse_try [OF assms, of net]
  by (simp add: generateAIResponse_def snd_try_catch snd_bind fst_bind requests_append
        emit_def return_def split: sum.splits)

lemma outputs_generateAIResponse: "outputs (snd (generateAIResponse s store net cid)) = []"
proof -
  obtain ctx t where c: "getChatContext store cid (contextLength s) = (Inr ctx, t)" "outputs t = []"
    using getChatContext_total [of store cid "contextLength s"] by auto
  have "outputs (snd (generateAIResponse_try s store net cid)) = []"
    using c
    by (simp add: generateAIResponse_try_def snd_bind fst_bind outputs_append
          outputs_generateResponse extract_text_quiet emit_def return_def split: sum.splits)
  then show ?thesis
    by (simp add: generateAIResponse_def snd_try_catch snd_bind fst_bind outputs_append
        emit_def return_def split: sum.splits)
qed

lemma allMessages_nonempty: "ctx \<noteq> [] \<Longrightarrow> messages (body (completion_request k m ctx p)) \<noteq> []"
  by (simp add: completion_request_def allMessages_def)

lemma deliver_quiet: "requests (snd (deliver s ch result)) = []"
proof (cases result)
  case None
  then show ?thesis by (simp add: deliver_def return_def)
next
  case (Some a)
  obtain gen response where a: "a = (gen, response)" by (cases a)
  obtain d t where d: "formatDebugInfo (Some response) = (Inr d, t)" "requests t = []"
    using formatDebugInfo_total [of "Some response"] by auto
  show ?thesis
    using Some a d by (simp add: deliver_def snd_bind fst_bind emit_def return_def requests_append)
qed

section \<open>Properties of estimateTokens\<close>

lemma count_chars_present:
  "map content ms = map Some cs \<Longrightarrow>
     count_chars n ms = Inr (n + sum_list (map length cs))"
proof (induction ms arbitrary: n cs)
  case Nil
  then show ?case by simp
next
  case (Cons m ms)
  then obtain c cs' where cs: "cs = c # cs'" "content m = Some c" "map content ms = map Some cs'"
    by (cases cs) auto
  with Cons.IH [of cs' "n + length c"] show ?case by simp
qed

lemma ceiling_quarter: "\<lceil>(of_nat n :: rat) / 4\<rceil> = (int n + 3) div 4"
proof -
  have "(of_nat n :: rat) / 4 = of_int (int n) / of_int 4" by simp
  then have "\<lceil>(of_nat n :: rat) / 4\<rceil> = - ((- int n) div 4)"
    by (simp only: ceiling_divide_eq_div)
  then show ?thesis by presburger
qed

text \<open>
  C3. For a sequence of messages whose contents are the strings \<open>cs\<close>, estimateTokens
  resolves, without logging, to the ceiling of the summed content lengths over four; the
  value is a non-negative integer (it is \<open>(sum + 3) div 4\<close>), and it is 0 for the empty
  sequence.
\<close>

theorem estimateTokens_ceiling:
  "map content ms = map Some cs \<Longrightarrow>
     estimateTokens (Some ms) = (Inr \<lceil>real (sum_list (map length cs)) / 4\<rceil>, [])
     \<and> \<lceil>real (sum_list (map length cs)) / 4\<rceil> = (int (sum_list (map length cs)) + 3) div 4
     \<and> 0 \<le> \<lceil>real (sum_list (map length cs)) / 4\<rceil>
     \<and> estimateTokens (Some []) = (Inr 0, [])"
proof -
  assume a: "map content ms = map Some cs"
  let ?n = "sum_list (map length cs)"
  have r: "\<lceil>real ?n / 4\<rceil> = \<lceil>(of_nat ?n :: rat) / 4\<rceil>"
  proof -
    have "real ?n / 4 = of_rat ((of_nat ?n :: rat) / 4)"
      by (simp add: of_rat_divide)
    then show ?thesis by (simp only: of_rat_ceiling)
  qed
  have "estimateTokens (Some ms) = (Inr \<lceil>(of_nat ?n :: rat) / 4\<rceil>, [])"
    using count_chars_present [OF a, of 0]
    by (simp add: estimateTokens_def estimateTokens_try_def try_catch_def lift_def)
  moreover have "estimateTokens (Some []) = (Inr 0, [])"
    by (simp add: estimateTokens_def estimateTokens_try_def try_catch_def lift_def)
  moreover have "0 \<le> \<lceil>real ?n / 4\<rceil>" by simp
  ultimately show ?thesis using r ceiling_quarter [of ?n] by simp
qed

theorem estimateTokens_ceiling_witness:
  "map content [Message ''hello'' \<lparr>username = ''ann'', bot = None\<rparr> User,
                Message ''hi!!'' \<lparr>username = ''bob'', bot = Some True\<rparr> User]
     = map Some [''hello'', ''hi!!'']
   \<and> estimateTokens (Some [Message ''hello'' \<lparr>username = ''ann'', bot = None\<rparr> User,
                Message ''hi!!'' \<lparr>username = ''bob'', bot = Some True\<rparr> User]) = (Inr 3, [])"
proof -
  have h: "map content [Message ''hello'' \<lparr>username = ''ann'', bot = None\<rparr> User,
                Message ''hi!!'' \<lparr>username = ''bob'', bot = Some True\<rparr> User]
     = map Some [''hello'', ''hi!!'']"
    by (simp add: Message_def)
  have "\<lceil>real (sum_list (map length [''hello'', ''hi!!''])) / 4\<rceil> = 3"
    by simp
  with estimateTokens_ceiling [OF h] h show ?thesis by simp
qed

section \<open>Properties of getChatContext\<close>

lemma format_messages_well_formed:
  "format_messages (map (\<lambda>(c, a). HostMessage c a) xs) = Inr (map (\<lambda>(c, a). context_entry c a) xs)"
  by (induction xs) (auto simp: HostMessage_def)

lemma format_messages_role:
  "format_messages hs = Inr ms \<Longrightarrow> m \<in> set ms \<Longrightarrow> role m = User"
proof (induction hs arbitrary: ms)
  case Nil
  then show ?case by simp
next
  case (Cons h hs)
  then show ?case
    by (auto simp: context_entry_def split: option.splits sum.splits)
qed


lemmas sample_defs = ann_def helper_bot_def five_messages_def sample_store_def sample_settings_def
  dm_channel_def guild_channel_def unauthorized_def sample_usage_def reply_def answering_def hello_choice_def

lemma sample_fields:
  "apiKey sample_settings = ''or-key''"
  "modelId sample_settings = ''google/gemini-flash-1.5-8b-exp''"
  "systemInstructions sample_settings = ''Be concise.''"
  by (simp_all add: sample_settings_def)

lemma sample_context:
  "getChatContext sample_store ''42'' (contextLength sample_settings) = (Inr five_entries, [GetMessages ''42''])"
  by (simp add: getChatContext_cases cached_def slice_def sample_store_def five_messages_def
        sample_settings_def five_entries_def HostMessage_def)

text \<open>
  The context length of the settings is one of the slider's marks, 5 to 100. Outside that
  range \<open>slice\<close> does not count from the end: \<open>slice(-0)\<close> is \<open>slice(0)\<close>, the whole
  array.
\<close>

lemma getChatContext_zero_length:
  "cached store ch = map (\<lambda>(c, a). HostMessage c a) xs \<Longrightarrow>
   getChatContext store ch 0 = (Inr (map (\<lambda>(c, a). context_entry c a) xs), [GetMessages ch])"
  by (simp add: getChatContext_cases slice_def format_messages_well_formed)



text \<open>
  C6. Every entry that \<open>getChatContext\<close> returns has role \<open>user\<close>, whoever wrote the
  message, a bot included.
\<close>

theorem getChatContext_role_user:
  "getChatContext store ch L = (Inr ctx, t) \<Longrightarrow> m \<in> set ctx \<Longrightarrow> role m = User"
  by (auto simp: getChatContext_cases split: sum.splits dest: format_messages_role)

theorem getChatContext_role_user_witness:
  "getChatContext sample_store ''42'' 20 = (Inr five_entries, [GetMessages ''42''])
   \<and> context_entry (Some ''two'') helper_bot \<in> set five_entries
   \<and> bot (the (author (context_entry (Some ''two'') helper_bot))) = Some True
   \<and> role (context_entry (Some ''two'') helper_bot) = User"
proof -
  have c: "getChatContext sample_store ''42'' 20 = (Inr five_entries, [GetMessages ''42''])"
    using sample_context by (simp add: sample_settings_def)
  have m: "context_entry (Some ''two'') helper_bot \<in> set five_entries"
    by (simp add: five_entries_def)
  from getChatContext_role_user [OF c m] c m show ?thesis
    by (simp add: context_entry_def helper_bot_def)
qed

section \<open>Properties of generateResponse\<close>

text \<open>
  C1. Whatever the key, the model, the message list and the system instruction,
  \<open>generateResponse\<close> issues exactly one request, and its body holds, in this order, a
  message of role \<open>system\<close> carrying the instruction, present exactly when the instruction
  is not empty, and then the messages of the input list, unchanged and in their order;
  the body carries temperature 0.7, max_tokens 1024 and stream false. So, for an input
  list that does not itself begin with a system message, index 0 of the body holds a
  system message exactly when the instruction is not empty.
\<close>

theorem generateResponse_request_body:
  "requests (snd (generateResponse net k mdl msgs systemPrompt)) = [completion_request k mdl msgs systemPrompt]
   \<and> body (completion_request k mdl msgs systemPrompt) =
       \<lparr>model = mdl,
        messages = (if systemPrompt = [] then msgs
                    else \<lparr>content = Some systemPrompt, author = None, role = System\<rparr> # msgs),
        temperature = 7 / 10, max_tokens = 1024, stream = False\<rparr>
   \<and> ((\<forall>m \<in> set (take 1 msgs). role m \<noteq> System) \<longrightarrow>
        ((\<exists>m \<in> set (take 1 (messages (body (completion_request k mdl msgs systemPrompt)))).
            role m = System) \<longleftrightarrow> systemPrompt \<noteq> []))"
  by (simp add: requests_generateResponse completion_request_def allMessages_def system_message_def)

theorem generateResponse_request_body_witness:
  "map role (take 1 five_entries) = [User]
   \<and> map role (take 1 (messages (body (completion_request ''or-key'' ''google/gemini-flash-1.5-8b-exp''
         five_entries ''Be concise.'')))) = [System]
   \<and> messages (body (completion_request ''or-key'' ''google/gemini-flash-1.5-8b-exp'' five_entries ''Be concise.''))
       = \<lparr>content = Some ''Be concise.'', author = None, role = System\<rparr> # five_entries
   \<and> messages (body (completion_request ''or-key'' ''google/gemini-flash-1.5-8b-exp'' five_entries []))
       = five_entries
   \<and> requests (snd (generateResponse unauthorized ''or-key'' ''google/gemini-flash-1.5-8b-exp'' five_entries
         ''Be concise.''))
       = [completion_request ''or-key'' ''google/gemini-flash-1.5-8b-exp'' five_entries ''Be concise.'']"
proof -
  have h: "\<forall>m \<in> set (take 1 five_entries). role m \<noteq> System"
    by (simp add: five_entries_def context_entry_def)
  from generateResponse_request_body [of unauthorized "''or-key''" "''google/gemini-flash-1.5-8b-exp''"
         five_entries "''Be concise.''"]
       generateResponse_request_body [of unauthorized "''or-key''" "''google/gemini-flash-1.5-8b-exp''"
         five_entries "[]"] h
  show ?thesis by (simp add: five_entries_def context_entry_def)
qed

section \<open>Properties of the helpers' error handling\<close>

text \<open>
  C10. \<open>estimateTokens\<close>, \<open>formatDebugInfo\<close> and \<open>getChatContext\<close> always resolve.
  When the \<open>try\<close> block throws, they log the error and resolve to 0, to the string
  "Error generating debug info" and to the empty list; otherwise they resolve to the value
  of the block.
\<close>

theorem helpers_never_throw:
  "(case estimateTokens_try msgs of
      Inl e \<Rightarrow> estimateTokens msgs = (Inr 0, [ConsoleError ''Error estimating tokens:'' e])
    | Inr n \<Rightarrow> estimateTokens msgs = (Inr n, []))
   \<and> (case formatDebugInfo_try response of
      Inl e \<Rightarrow> formatDebugInfo response =
                 (Inr ''Error generating debug info'', [ConsoleError ''Error formatting debug info:'' e])
    | Inr d \<Rightarrow> formatDebugInfo response = (Inr d, []))
   \<and> (case getChatContext_try store ch L of
      (Inl e, t) \<Rightarrow> getChatContext store ch L =
                 (Inr [], t @ [ConsoleError ''Error getting chat context:'' e])
    | (Inr ms, t) \<Rightarrow> getChatContext store ch L = (Inr ms, t))
   \<and> (\<exists>n t. estimateTokens msgs = (Inr n, t))
   \<and> (\<exists>d t. formatDebugInfo response = (Inr d, t))
   \<and> (\<exists>ms t. getChatContext store ch L = (Inr ms, t))"
  by (simp add: estimateTokens_def formatDebugInfo_def getChatContext_def io_defs
        split: sum.splits prod.splits)

theorem helpers_never_throw_witness:
  "estimateTokens None =
     (Inr 0, [ConsoleError ''Error estimating tokens:'' (TypeError ''messages is not iterable'')])
   \<and> formatDebugInfo None =
     (Inr ''Error generating debug info'',
      [ConsoleError ''Error formatting debug info:''
         (TypeError ''Cannot destructure property 'model' of 'response' as it is null.'')])
   \<and> getChatContext broken_store ''42'' 20 =
     (Inr [], [GetMessages ''42'',
               ConsoleError ''Error getting chat context:''
                 (TypeError ''Cannot read properties of undefined (reading 'username')'')])
   \<and> estimateTokens (Some [\<lparr>content = None, author = None, role = User\<rparr>]) =
     (Inr 0, [ConsoleError ''Error estimating tokens:''
                (TypeError ''Cannot read properties of undefined (reading 'length')'')])
   \<and> formatDebugInfo (Some \<lparr>rid = ''gen-1'', choices = None, rmodel = ''m'', rusage = None\<rparr>) =
     (Inr ''Error generating debug info'',
      [ConsoleError ''Error formatting debug info:''
         (TypeError ''Cannot read properties of undefined (reading 'prompt_tokens')'')])"
proof -
  have t: "getChatContext_try broken_store ''42'' 20 =
      (Inl (TypeError ''Cannot read properties of undefined (reading 'username')''), [GetMessages ''42''])"
    by (simp add: getChatContext_try_def cached_def slice_def broken_store_def io_defs)
  from helpers_never_throw [of None None broken_store "''42''" 20]
       helpers_never_throw [of "Some [\<lparr>content = None, author = None, role = User\<rparr>]"
          "Some \<lparr>rid = ''gen-1'', choices = None, rmodel = ''m'', rusage = None\<rparr>" broken_store "''42''" 20]
  show ?thesis
    by (simp add: t estimateTokens_try_def formatDebugInfo_try_def)
qed

section \<open>Properties of the response flow\<close>

lemma execute_requests:
  "requests (snd (execute s store net ch)) =
     (if scope_mismatch s ch then [] else requests (snd (generateAIResponse s store net (channel_id ch))))"
proof -
  obtain r where r: "fst (generateAIResponse s store net (channel_id ch)) = Inr r"
    using generateAIResponse_total by blast
  have "requests (snd (execute_try s store net ch)) =
     (if scope_mismatch s ch then [] else requests (snd (generateAIResponse s store net (channel_id ch))))"
    using r by (simp add: execute_try_def snd_bind requests_append deliver_quiet emit_def)
  moreover have "\<exists>u. fst (execute_try s store net ch) = Inr u"
  proof (cases r)
    case None
    then show ?thesis using r by (simp add: execute_try_def fst_bind deliver_def emit_def return_def)
  next
    case (Some a)
    obtain gen response where a: "a = (gen, response)" by (cases a)
    obtain d t where d: "formatDebugInfo (Some response) = (Inr d, t)"
      using formatDebugInfo_total [of "Some response"] by auto
    show ?thesis using r Some a d
      by (simp add: execute_try_def fst_bind deliver_def emit_def return_def)
  qed
  ultimately show ?thesis
    by (auto simp: execute_def snd_try_catch)
qed

lemma generateAIResponse_requests_nonempty:
  "req \<in> set (requests (snd (generateAIResponse s store net cid))) \<Longrightarrow> messages (body req) \<noteq> []"
proof -
  assume a: "req \<in> set (requests (snd (generateAIResponse s store net cid)))"
  obtain ctx t where c: "getChatContext store cid (contextLength s) = (Inr ctx, t)"
    using getChatContext_total [of store cid "contextLength s"] by auto
  from a requests_generateAIResponse [OF c, of net]
  have "ctx \<noteq> []" "req = completion_request (apiKey s) (modelId s) ctx (systemInstructions s)"
    by (auto split: if_splits)
  then show ?thesis by (simp add: allMessages_nonempty)
qed

lemma generateAIResponse_no_key:
  "apiKey s = [] \<Longrightarrow> generateAIResponse s store net cid =
     (Inr None, [ShowToast ''Please set your OpenRouter API key in the plugin settings'' FAILURE])"
  by (simp add: generateAIResponse_def generateAIResponse_try_def io_defs)

lemma generateAIResponse_no_context:
  "apiKey s \<noteq> [] \<Longrightarrow> getChatContext store cid (contextLength s) = (Inr [], t) \<Longrightarrow>
   generateAIResponse s store net cid =
     (Inr None, t @ [ShowToast ''No messages found to generate context'' FAILURE])"
  by (simp add: generateAIResponse_def generateAIResponse_try_def io_defs)

text \<open>
  C7. Every request that the response flow issues, from the command or from the button,
  carries a non-empty list of messages. Without an API key the flow shows a failure toast
  and returns \<open>null\<close> with no request; when the context is empty it shows a failure
  toast and returns \<open>null\<close> with no request.
\<close>

theorem request_messages_nonempty:
  "(\<forall>req \<in> set (requests (snd (generateAIResponse s store net cid))). messages (body req) \<noteq> [])
   \<and> (\<forall>req \<in> set (requests (snd (execute s store net ch))). messages (body req) \<noteq> [])
   \<and> (\<forall>b. renderMessagePopoverButton sr msg ch = Some b \<longrightarrow>
         (\<forall>req \<in> set (requests (snd (onClick b s store net))). messages (body req) \<noteq> []))
   \<and> (apiKey s = [] \<longrightarrow>
         generateAIResponse s store net cid =
           (Inr None, [ShowToast ''Please set your OpenRouter API key in the plugin settings'' FAILURE]))
   \<and> (apiKey s \<noteq> [] \<and> getChatContext store cid (contextLength s) = (Inr [], t) \<longrightarrow>
         generateAIResponse s store net cid =
           (Inr None, t @ [ShowToast ''No messages found to generate context'' FAILURE])
         \<and> requests (t @ [ShowToast ''No messages found to generate context'' FAILURE]) = [])"
proof -
  have 1: "\<forall>req \<in> set (requests (snd (generateAIResponse s store net cid))). messages (body req) \<noteq> []"
    using generateAIResponse_requests_nonempty by blast
  have 2: "\<forall>req \<in> set (requests (snd (execute s store net ch))). messages (body req) \<noteq> []"
    using generateAIResponse_requests_nonempty [of _ s store net "channel_id ch"]
    by (auto simp: execute_requests split: if_splits)
  have 3: "\<forall>b. renderMessagePopoverButton sr msg ch = Some b \<longrightarrow>
         (\<forall>req \<in> set (requests (snd (onClick b s store net))). messages (body req) \<noteq> [])"
  proof (intro allI impI ballI)
    fix b req
    assume b: "renderMessagePopoverButton sr msg ch = Some b"
      and req: "req \<in> set (requests (snd (onClick b s store net)))"
    from b have "onClick b s store net = bind (generateAIResponse s store net (channel_id ch)) (deliver s ch)"
      by (auto simp: renderMessagePopoverButton_def split: if_splits)
    with req have "req \<in> set (requests (snd (generateAIResponse s store net (channel_id ch))))"
      by (auto simp: snd_bind requests_append deliver_quiet split: sum.splits)
    then show "messages (body req) \<noteq> []"
      by (rule generateAIResponse_requests_nonempty)
  qed
  have 5: "apiKey s \<noteq> [] \<and> getChatContext store cid (contextLength s) = (Inr [], t) \<longrightarrow>
         generateAIResponse s store net cid =
           (Inr None, t @ [ShowToast ''No messages found to generate context'' FAILURE])
         \<and> requests (t @ [ShowToast ''No messages found to generate context'' FAILURE]) = []"
  proof (intro impI, elim conjE)
    assume k: "apiKey s \<noteq> []" and c: "getChatContext store cid (contextLength s) = (Inr [], t)"
    have "requests t = []"
      using getChatContext_total [of store cid "contextLength s"] c by auto
    then show "generateAIResponse s store net cid =
           (Inr None, t @ [ShowToast ''No messages found to generate context'' FAILURE])
         \<and> requests (t @ [ShowToast ''No messages found to generate context'' FAILURE]) = []"
      using generateAIResponse_no_context [OF k c] by (simp add: requests_append)
  qed
  from 1 2 3 5 generateAIResponse_no_key [of s store net cid] show ?thesis by blast
qed

theorem request_messages_nonempty_witness:
  "requests (snd (execute sample_settings sample_store (answering [hello_choice]) dm_channel)) =
     [completion_request ''or-key'' ''google/gemini-flash-1.5-8b-exp'' five_entries ''Be concise.'']
   \<and> map_option (\<lambda>b. requests (snd (onClick b sample_settings sample_store (answering [hello_choice]))))
         (renderMessagePopoverButton sample_settings (HostMessage (Some ''one'') ann) dm_channel) =
       Some [completion_request ''or-key'' ''google/gemini-flash-1.5-8b-exp'' five_entries ''Be concise.'']
   \<and> messages (body (completion_request ''or-key'' ''google/gemini-flash-1.5-8b-exp'' five_entries ''Be concise.'')) \<noteq> []
   \<and> apiKey (sample_settings\<lparr>apiKey := []\<rparr>) = []
   \<and> generateAIResponse (sample_settings\<lparr>apiKey := []\<rparr>) sample_store (answering [hello_choice]) ''42'' =
       (Inr None, [ShowToast ''Please set your OpenRouter API key in the plugin settings'' FAILURE])
   \<and> apiKey sample_settings \<noteq> []
   \<and> getChatContext sample_store ''7'' (contextLength sample_settings) = (Inr [], [GetMessages ''7''])
   \<and> generateAIResponse sample_settings sample_store (answering [hello_choice]) ''7'' =
       (Inr None, [GetMessages ''7'', ShowToast ''No messages found to generate context'' FAILURE])"
proof -
  have r: "requests (snd (execute sample_settings sample_store (answering [hello_choice]) dm_channel)) =
     [completion_request ''or-key'' ''google/gemini-flash-1.5-8b-exp'' five_entries ''Be concise.'']"
    using requests_generateAIResponse [OF sample_context, of "answering [hello_choice]"]
    by (simp add: execute_requests scope_mismatch_def dm_channel_def sample_settings_def five_entries_def)
  have e: "getChatContext sample_store ''7'' (contextLength sample_settings) = (Inr [], [GetMessages ''7''])"
    by (simp add: getChatContext_cases cached_def slice_def sample_store_def)
  have k: "apiKey sample_settings \<noteq> []" by (simp add: sample_settings_def)
  have b: "map_option (\<lambda>b. requests (snd (onClick b sample_settings sample_store (answering [hello_choice]))))
         (renderMessagePopoverButton sample_settings (HostMessage (Some ''one'') ann) dm_channel) =
       Some [completion_request ''or-key'' ''google/gemini-flash-1.5-8b-exp'' five_entries ''Be concise.'']"
    using requests_generateAIResponse [OF sample_context, of "answering [hello_choice]"]
      generateAIResponse_total [of sample_settings sample_store "answering [hello_choice]" "''42''"]
    by (auto simp: renderMessagePopoverButton_def scope_mismatch_def snd_bind requests_append
          deliver_quiet dm_channel_def sample_settings_def five_entries_def)
  from request_messages_nonempty [where s = sample_settings and store = sample_store
         and net = "answering [hello_choice]" and cid = "''7''" and ch = dm_channel
         and sr = sample_settings and msg = "HostMessage (Some ''one'') ann" and t = "[GetMessages ''7'']"]
       request_messages_nonempty [where s = "sample_settings\<lparr>apiKey := []\<rparr>" and store = sample_store
         and net = "answering [hello_choice]" and cid = "''42''" and ch = dm_channel
         and sr = sample_settings and msg = "HostMessage (Some ''one'') ann" and t = "[]"]
       r e k b
  show ?thesis by simp
qed

lemma upstream_error_flow:
  assumes key: "apiKey s \<noteq> []"
    and ctx: "getChatContext store cid (contextLength s) = (Inr ctx, t)" "ctx \<noteq> []"
    and net: "net (completion_request (apiKey s) (modelId s) ctx (systemInstructions s)) = Inr resp"
    and bad: "\<not> ok resp" "text_result resp = Inr errorText"
  shows "generateResponse net (apiKey s) (modelId s) ctx (systemInstructions s) =
           (Inl (api_error (status resp) errorText),
            [Fetch (completion_request (apiKey s) (modelId s) ctx (systemInstructions s)),
             ConsoleError ''Error in generateResponse:'' (api_error (status resp) errorText)])"
    and "generateAIResponse s store net cid =
           (Inr None,
            t @ [ShowToast ''Generating AI response...'' INFO,
                 Fetch (completion_request (apiKey s) (modelId s) ctx (systemInstructions s)),
                 ConsoleError ''Error in generateResponse:'' (api_error (status resp) errorText)]
              @ (if logErrors s
                 then [ConsoleError ''Error generating AI response:'' (api_error (status resp) errorText)]
                 else [])
              @ [ShowToast ''Error generating AI response'' FAILURE])"
proof -
  show g: "generateResponse net (apiKey s) (modelId s) ctx (systemInstructions s) =
           (Inl (api_error (status resp) errorText),
            [Fetch (completion_request (apiKey s) (modelId s) ctx (systemInstructions s)),
             ConsoleError ''Error in generateResponse:'' (api_error (status resp) errorText)])"
    using net bad by (simp add: generateResponse_cases Let_def)
  show "generateAIResponse s store net cid =
           (Inr None,
            t @ [ShowToast ''Generating AI response...'' INFO,
                 Fetch (completion_request (apiKey s) (modelId s) ctx (systemInstructions s)),
                 ConsoleError ''Error in generateResponse:'' (api_error (status resp) errorText)]
              @ (if logErrors s
                 then [ConsoleError ''Error generating AI response:'' (api_error (status resp) errorText)]
                 else [])
              @ [ShowToast ''Error generating AI response'' FAILURE])"
    using key ctx g
    by (simp add: generateAIResponse_def generateAIResponse_try_def io_defs)
qed

lemma execute_outputs:
  assumes "\<not> scope_mismatch s ch" and "fst (generateAIResponse s store net (channel_id ch)) = Inr r"
  shows "outputs (snd (execute s store net ch)) = outputs (snd (deliver s ch r))"
proof -
  have "\<exists>u. fst (deliver s ch r) = Inr u"
  proof (cases r)
    case None
    then show ?thesis by (simp add: deliver_def return_def)
  next
    case (Some a)
    obtain gen response where a: "a = (gen, response)" by (cases a)
    obtain d t where d: "formatDebugInfo (Some response) = (Inr d, t)"
      using formatDebugInfo_total [of "Some response"] by auto
    show ?thesis using Some a d
      by (simp add: fst_bind deliver_def emit_def return_def)
  qed
  then show ?thesis
    using assms
    by (auto simp: execute_def execute_try_def snd_try_catch fst_bind snd_bind outputs_append
          outputs_generateAIResponse)
qed

lemma well_formed_flow:
  assumes key: "apiKey s \<noteq> []"
    and ctx: "getChatContext store cid (contextLength s) = (Inr ctx, t)" "ctx \<noteq> []"
    and net: "net (completion_request (apiKey s) (modelId s) ctx (systemInstructions s)) = Inr resp"
    and ok: "ok resp" "json_result resp = Inr (Some r)"
  shows "generateAIResponse s store net cid =
           try_catch
             (case extract_text s (Some r) of
                (x, t') \<Rightarrow> (x, t @ [ShowToast ''Generating AI response...'' INFO,
                   Fetch (completion_request (apiKey s) (modelId s) ctx (systemInstructions s))] @ t'))
             (\<lambda>error.
                bind (if logErrors s then emit (ConsoleError ''Error generating AI response:'' error)
                      else return ()) (\<lambda>_.
                bind (emit (ShowToast ''Error generating AI response'' FAILURE)) (\<lambda>_.
                return None)))"
proof -
  have g: "generateResponse net (apiKey s) (modelId s) ctx (systemInstructions s) =
           (Inr (Some r), [Fetch (completion_request (apiKey s) (modelId s) ctx (systemInstructions s))])"
    using net ok by (simp add: generateResponse_cases Let_def)
  have "generateAIResponse_try s store net cid =
          (case extract_text s (Some r) of
                (x, t') \<Rightarrow> (x, t @ [ShowToast ''Generating AI response...'' INFO,
                   Fetch (completion_request (apiKey s) (modelId s) ctx (systemInstructions s))] @ t'))"
    using key ctx g
    by (simp add: generateAIResponse_try_def bind_def emit_def split: prod.splits sum.splits)
  then show ?thesis by (simp add: generateAIResponse_def)
qed

text \<open>
  C8. On a successful response whose choices all carry a message and which reports its
  usage, the flow returns the content of the first choice's message as the generated text
  (and in type-bar mode the command inserts exactly that text); when the list of choices
  is empty it shows the toast "Failed to generate response", returns \<open>null\<close>, and neither
  the command nor the button delivers any text.
\<close>

theorem choices_extraction:
  assumes key: "apiKey s \<noteq> []"
    and ctx: "getChatContext store (channel_id ch) (contextLength s) = (Inr ctx, t)" "ctx \<noteq> []"
    and net: "net (completion_request (apiKey s) (modelId s) ctx (systemInstructions s)) = Inr resp"
    and ok: "ok resp" "json_result resp = Inr (Some r)"
    and wf: "choices r = Some cs" "rusage r = Some u" "\<forall>c \<in> set cs. cmessage c \<noteq> None"
    and scope: "\<not> scope_mismatch s ch"
  shows "case cs of
           [] \<Rightarrow>
             generateAIResponse s store net (channel_id ch) =
               (Inr None,
                t @ [ShowToast ''Generating AI response...'' INFO,
                     Fetch (completion_request (apiKey s) (modelId s) ctx (systemInstructions s)),
                     ShowToast ''Failed to generate response'' FAILURE])
             \<and> outputs (snd (execute s store net ch)) = []
             \<and> (\<forall>b. renderMessagePopoverButton sr msg ch = Some b \<longrightarrow>
                    outputs (snd (onClick b s store net)) = [])
         | c0 # _ \<Rightarrow>
             (\<exists>m. cmessage c0 = Some m
                \<and> fst (generateAIResponse s store net (channel_id ch)) = Inr (Some (cm_content m, r))
                \<and> (outputMode s = typebar \<longrightarrow>
                      outputs (snd (execute s store net ch)) = [cm_content m]))"
proof (cases cs)
  case Nil
  have e: "extract_text s (Some r) = (Inr None, [ShowToast ''Failed to generate response'' FAILURE])"
    using wf Nil by (simp add: extract_text_def failed_to_generate_def io_defs)
  have g: "generateAIResponse s store net (channel_id ch) =
               (Inr None,
                t @ [ShowToast ''Generating AI response...'' INFO,
                     Fetch (completion_request (apiKey s) (modelId s) ctx (systemInstructions s)),
                     ShowToast ''Failed to generate response'' FAILURE])"
    by (simp add: well_formed_flow [where net = net, OF key ctx net ok] e try_catch_def)
  then have f: "fst (generateAIResponse s store net (channel_id ch)) = Inr None" by simp
  have x: "outputs (snd (execute s store net ch)) = []"
    using execute_outputs [OF scope f] by (simp add: deliver_def return_def)
  have b: "\<forall>b. renderMessagePopoverButton sr msg ch = Some b \<longrightarrow>
                    outputs (snd (onClick b s store net)) = []"
    using f outputs_generateAIResponse [of s store net "channel_id ch"]
    by (auto simp: renderMessagePopoverButton_def snd_bind outputs_append deliver_def return_def
          split: if_splits)
  from g x b Nil show ?thesis by simp
next
  case (Cons c0 rest)
  with wf obtain m where m: "cmessage c0 = Some m" by auto
  obtain d td where d: "formatDebugInfo (Some r) = (Inr d, td)"
    using formatDebugInfo_total [of "Some r"] by auto
  have e: "fst (extract_text s (Some r)) = Inr (Some (cm_content m, r))"
    using wf Cons m d
    by (simp add: extract_text_def show_debug_def fst_bind emit_def return_def Let_def)
  have f: "fst (generateAIResponse s store net (channel_id ch)) = Inr (Some (cm_content m, r))"
  proof -
    obtain te where "extract_text s (Some r) = (Inr (Some (cm_content m, r)), te)"
      using e by (cases "extract_text s (Some r)") simp
    then show ?thesis
      by (simp add: well_formed_flow [where net = net, OF key ctx net ok] try_catch_def)
  qed
  have "outputMode s = typebar \<longrightarrow> outputs (snd (execute s store net ch)) = [cm_content m]"
    using execute_outputs [OF scope f] by (simp add: deliver_def emit_def)
  with m f Cons show ?thesis by simp
qed

theorem choices_extraction_witness:
  "generateAIResponse sample_settings sample_store (answering []) ''42'' =
     (Inr None,
      [GetMessages ''42'', ShowToast ''Generating AI response...'' INFO,
       Fetch (completion_request ''or-key'' ''google/gemini-flash-1.5-8b-exp'' five_entries ''Be concise.''),
       ShowToast ''Failed to generate response'' FAILURE])
   \<and> outputs (snd (execute sample_settings sample_store (answering []) dm_channel)) = []
   \<and> map_option (\<lambda>b. outputs (snd (onClick b sample_settings sample_store (answering []))))
         (renderMessagePopoverButton sample_settings (HostMessage (Some ''one'') ann) dm_channel) = Some []
   \<and> fst (generateAIResponse sample_settings sample_store (answering [hello_choice]) ''42'') =
       Inr (Some (''hello'', reply [hello_choice]))
   \<and> outputs (snd (execute (sample_settings\<lparr>outputMode := typebar\<rparr>) sample_store
         (answering [hello_choice]) dm_channel)) = [''hello'']"
proof -
  let ?t = "sample_settings\<lparr>outputMode := typebar\<rparr>"
  have k: "apiKey sample_settings \<noteq> []" "apiKey ?t \<noteq> []" by (simp_all add: sample_settings_def)
  have c: "getChatContext sample_store (channel_id dm_channel) (contextLength sample_settings)
             = (Inr five_entries, [GetMessages ''42''])"
      "getChatContext sample_store (channel_id dm_channel) (contextLength ?t)
             = (Inr five_entries, [GetMessages ''42''])"
    using sample_context by (simp_all add: dm_channel_def)
  have n: "five_entries \<noteq> []" by (simp add: five_entries_def)
  have a: "\<And>cs. answering cs (completion_request (apiKey sample_settings) (modelId sample_settings)
               five_entries (systemInstructions sample_settings)) =
             Inr \<lparr>ok = True, status = 200, text_result = Inr ''{}'', json_result = Inr (Some (reply cs))\<rparr>"
       "\<And>cs. answering cs (completion_request (apiKey ?t) (modelId ?t)
               five_entries (systemInstructions ?t)) =
             Inr \<lparr>ok = True, status = 200, text_result = Inr ''{}'', json_result = Inr (Some (reply cs))\<rparr>"
    by (simp_all add: answering_def)
  have m: "\<not> scope_mismatch sample_settings dm_channel" "\<not> scope_mismatch ?t dm_channel"
    by (simp_all add: scope_mismatch_def sample_settings_def)
  have w: "\<forall>c \<in> set [hello_choice]. cmessage c \<noteq> None" "\<forall>c \<in> set ([] :: choice list). cmessage c \<noteq> None"
    by (simp_all add: hello_choice_def)
  obtain b where rb: "renderMessagePopoverButton sample_settings (HostMessage (Some ''one'') ann) dm_channel = Some b"
    by (simp add: renderMessagePopoverButton_def scope_mismatch_def sample_settings_def)
  have 1: "generateAIResponse sample_settings sample_store (answering []) ''42'' =
     (Inr None,
      [GetMessages ''42'', ShowToast ''Generating AI response...'' INFO,
       Fetch (completion_request ''or-key'' ''google/gemini-flash-1.5-8b-exp'' five_entries ''Be concise.''),
       ShowToast ''Failed to generate response'' FAILURE])
   \<and> outputs (snd (execute sample_settings sample_store (answering []) dm_channel)) = []
   \<and> map_option (\<lambda>b. outputs (snd (onClick b sample_settings sample_store (answering []))))
         (renderMessagePopoverButton sample_settings (HostMessage (Some ''one'') ann) dm_channel) = Some []"
    using choices_extraction [where net = "answering []" and cs = "[]" and r = "reply []"
        and u = sample_usage and msg = "HostMessage (Some ''one'') ann" and sr = sample_settings,
        OF k(1) c(1) n a(1) _ _ _ _ w(2) m(1)] rb
    by (simp add: reply_def dm_channel_def sample_fields)
  have 2: "fst (generateAIResponse sample_settings sample_store (answering [hello_choice]) ''42'') =
       Inr (Some (''hello'', reply [hello_choice]))"
    using choices_extraction [where net = "answering [hello_choice]" and cs = "[hello_choice]"
        and r = "reply [hello_choice]" and u = sample_usage and msg = "HostMessage (Some ''one'') ann" and sr = sample_settings,
        OF k(1) c(1) n a(1) _ _ _ _ w(1) m(1)]
    by (simp add: reply_def dm_channel_def hello_choice_def)
  have 3: "outputs (snd (execute ?t sample_store (answering [hello_choice]) dm_channel)) = [''hello'']"
    using choices_extraction [where net = "answering [hello_choice]" and cs = "[hello_choice]"
        and r = "reply [hello_choice]" and u = sample_usage and msg = "HostMessage (Some ''one'') ann" and sr = sample_settings,
        OF k(2) c(2) n a(2) _ _ _ _ w(1) m(2)]
    by (simp add: reply_def hello_choice_def sample_settings_def)
  from 1 2 3 show ?thesis by simp
qed

text \<open>
  C9. When the scope is \<open>dms\<close> in a guild channel, or \<open>channels\<close> outside one, the
  command sends the local notice and nothing else: it does not read the message cache and
  issues no request. The popover button is then not rendered, so the flow cannot be
  started from it.
\<close>

theorem scope_gate:
  assumes "(isGuildChannel ch \<and> chatScope s = dms) \<or> (\<not> isGuildChannel ch \<and> chatScope s = channels)"
  shows "execute s store net ch =
           (Inr (), [SendBotMessage (channel_id ch)
              ''AI responses are not enabled for this type of channel. Check your plugin settings.''])
         \<and> cache_reads (snd (execute s store net ch)) = []
         \<and> requests (snd (execute s store net ch)) = []
         \<and> renderMessagePopoverButton s msg ch = None"
  using assms
  by (auto simp: execute_def execute_try_def scope_mismatch_def renderMessagePopoverButton_def io_defs)

theorem scope_gate_witness:
  "isGuildChannel guild_channel \<and> chatScope (sample_settings\<lparr>chatScope := dms\<rparr>) = dms
   \<and> execute (sample_settings\<lparr>chatScope := dms\<rparr>) sample_store unauthorized guild_channel =
       (Inr (), [SendBotMessage ''42''
          ''AI responses are not enabled for this type of channel. Check your plugin settings.''])
   \<and> renderMessagePopoverButton (sample_settings\<lparr>chatScope := dms\<rparr>)
         (HostMessage (Some ''one'') ann) guild_channel = None
   \<and> \<not> isGuildChannel dm_channel \<and> chatScope (sample_settings\<lparr>chatScope := channels\<rparr>) = channels
   \<and> execute (sample_settings\<lparr>chatScope := channels\<rparr>) sample_store unauthorized dm_channel =
       (Inr (), [SendBotMessage ''42''
          ''AI responses are not enabled for this type of channel. Check your plugin settings.''])"
proof -
  have a: "(isGuildChannel guild_channel \<and> chatScope (sample_settings\<lparr>chatScope := dms\<rparr>) = dms)
        \<or> (\<not> isGuildChannel guild_channel \<and> chatScope (sample_settings\<lparr>chatScope := dms\<rparr>) = channels)"
    by (simp add: isGuildChannel_def guild_channel_def)
  have b: "(isGuildChannel dm_channel \<and> chatScope (sample_settings\<lparr>chatScope := channels\<rparr>) = dms)
        \<or> (\<not> isGuildChannel dm_channel \<and> chatScope (sample_settings\<lparr>chatScope := channels\<rparr>) = channels)"
    by (simp add: isGuildChannel_def dm_channel_def)
  from scope_gate [OF a, where store = sample_store and net = unauthorized
                     and msg = "HostMessage (Some ''one'') ann"]
       scope_gate [OF b, where store = sample_store and net = unauthorized
                     and msg = "HostMessage (Some ''one'') ann"]
  show ?thesis
    by (simp add: isGuildChannel_def guild_channel_def dm_channel_def)
qed

text \<open>
  C2. A response with status 401 and body \<open>Unauthorized\<close>, with the setting
  \<open>logErrors\<close> switched off: \<open>generateResponse\<close> throws an error that carries the status
  and the body, the flow shows the generic failure toast, returns \<open>null\<close> and delivers no
  text; but the error, with status and body, is written to the console by the
  \<open>catch\<close> block of \<open>generateResponse\<close>, which does not read the setting.
\<close>

theorem upstream_error_logged_with_logging_off:
  "logErrors sample_settings = False
   \<and> fst (generateResponse unauthorized ''or-key'' ''google/gemini-flash-1.5-8b-exp'' five_entries
         ''Be concise.'') = Inl (Error ''OpenRouter API error (401): Unauthorized'')
   \<and> generateAIResponse sample_settings sample_store unauthorized ''42'' =
       (Inr None,
        [GetMessages ''42'',
         ShowToast ''Generating AI response...'' INFO,
         Fetch (completion_request ''or-key'' ''google/gemini-flash-1.5-8b-exp'' five_entries ''Be concise.''),
         ConsoleError ''Error in generateResponse:'' (Error ''OpenRouter API error (401): Unauthorized''),
         ShowToast ''Error generating AI response'' FAILURE])
   \<and> console_errors (snd (generateAIResponse sample_settings sample_store unauthorized ''42'')) =
       [(''Error in generateResponse:'', Error ''OpenRouter API error (401): Unauthorized'')]
   \<and> outputs (snd (execute sample_settings sample_store unauthorized dm_channel)) = []"
proof -
  have k: "apiKey sample_settings \<noteq> []" by (simp add: sample_settings_def)
  have c: "five_entries \<noteq> []" by (simp add: five_entries_def)
  have n: "unauthorized (completion_request (apiKey sample_settings) (modelId sample_settings) five_entries
      (systemInstructions sample_settings)) =
     Inr \<lparr>ok = False, status = 401, text_result = Inr ''Unauthorized'',
          json_result = Inl (SyntaxError ''Unexpected token U in JSON at position 0'')\<rparr>"
    by (simp add: unauthorized_def)
  have g: "generateAIResponse sample_settings sample_store unauthorized ''42'' =
       (Inr None,
        [GetMessages ''42'',
         ShowToast ''Generating AI response...'' INFO,
         Fetch (completion_request ''or-key'' ''google/gemini-flash-1.5-8b-exp'' five_entries ''Be concise.''),
         ConsoleError ''Error in generateResponse:'' (Error ''OpenRouter API error (401): Unauthorized''),
         ShowToast ''Error generating AI response'' FAILURE])"
    using upstream_error_flow(2) [where net = unauthorized, OF k sample_context c n]
    by (simp add: api_error_def sample_settings_def digit_def show_nat.simps)
  have m: "\<not> scope_mismatch sample_settings dm_channel"
    by (simp add: scope_mismatch_def sample_settings_def)
  have f: "fst (generateAIResponse sample_settings sample_store unauthorized (channel_id dm_channel)) = Inr None"
    using g by (simp add: dm_channel_def)
  have "outputs (snd (execute sample_settings sample_store unauthorized dm_channel)) = []"
    using execute_outputs [OF m f] by (simp add: deliver_def return_def)
  moreover have "fst (generateResponse unauthorized ''or-key'' ''google/gemini-flash-1.5-8b-exp'' five_entries
         ''Be concise.'') = Inl (Error ''OpenRouter API error (401): Unauthorized'')"
    using upstream_error_flow(1) [where net = unauthorized, OF k sample_context c n]
    by (simp add: api_error_def sample_settings_def digit_def show_nat.simps)
  ultimately show ?thesis using g by (simp add: sample_settings_def)
qed

section \<open>Properties of the number model\<close>

lemma bitlen_pos: "0 < n \<Longrightarrow> 0 < bitlen n"
  by (subst bitlen.simps) simp

lemma bitlen_bounds: "0 < n \<Longrightarrow> 2 ^ (bitlen n - 1) \<le> n \<and> n < 2 ^ bitlen n"
proof (induction n rule: bitlen.induct)
  case (1 n)
  have b: "bitlen n = Suc (bitlen (n div 2))"
    using "1.prems" by (subst bitlen.simps) simp
  show ?case
  proof (cases "n div 2 = 0")
    case True
    then have "n = 1" using "1.prems" by presburger
    then show ?thesis by (simp add: bitlen.simps [of "Suc 0"] bitlen.simps [of 0])
  next
    case False
    then have h: "0 < n div 2" by simp
    with "1.IH" "1.prems" have ih: "2 ^ (bitlen (n div 2) - 1) \<le> n div 2" "n div 2 < 2 ^ bitlen (n div 2)"
      by simp_all
    have p: "bitlen (n div 2) = Suc (bitlen (n div 2) - 1)"
      using bitlen_pos [OF h] by simp
    have "(2::nat) ^ bitlen (n div 2) = 2 * 2 ^ (bitlen (n div 2) - 1)"
      by (subst p) simp
    with ih have "2 ^ bitlen (n div 2) \<le> n" by presburger
    moreover from ih have "n < 2 * 2 ^ bitlen (n div 2)" by presburger
    ultimately show ?thesis by (simp add: b)
  qed
qed

lemma round_half_even_bound: "\<bar>of_int (round_half_even q) - q\<bar> \<le> 1 / 2"
proof -
  have "of_int \<lfloor>q\<rfloor> \<le> q" "q < of_int \<lfloor>q\<rfloor> + 1" by linarith+
  then show ?thesis
    by (auto simp: round_half_even_def Let_def)
qed

lemma round_half_even_eqI: "\<bar>q - of_int m\<bar> < 1 / 2 \<Longrightarrow> round_half_even q = m"
proof -
  assume a: "\<bar>q - of_int m\<bar> < 1 / 2"
  have f: "of_int \<lfloor>q\<rfloor> \<le> q" "q < of_int \<lfloor>q\<rfloor> + 1" by linarith+
  have b: "\<bar>of_int (round_half_even q) - q\<bar> \<le> 1 / 2" by (rule round_half_even_bound)
  from a b have "\<bar>(of_int (round_half_even q) :: rat) - of_int m\<bar> < 1" by linarith
  then have "\<bar>(of_int (round_half_even q - m) :: rat)\<bar> < 1" by simp
  then have "\<bar>round_half_even q - m\<bar> < 1"
    by (metis of_int_abs of_int_less_1_iff)
  then show ?thesis by linarith
qed

lemma quotient_of_pos:
  assumes "0 < x" and "quotient_of x = (a, b)"
  shows "0 < a" "0 < b" "x = of_int a / of_int b"
proof -
  show b: "0 < b" using assms(2) by (rule quotient_of_denom_pos)
  show x: "x = of_int a / of_int b" using assms(2) by (rule quotient_of_div)
  from assms(1) x b show "0 < a" by (simp add: zero_less_divide_iff)
qed

lemma powi_diff_nat: "(2::rat) powi (int m - int n) = 2 ^ m / 2 ^ n"
  by (simp add: power_int_diff)

lemma ilog2_bounds:
  assumes "0 < x"
  shows "2 powi (ilog2 x) \<le> x \<and> x < 2 powi (ilog2 x + 1)"
proof -
  obtain a b where q: "quotient_of x = (a, b)" by (cases "quotient_of x")
  note ab = quotient_of_pos [OF assms q]
  define la where "la = bitlen (nat a)"
  define lb where "lb = bitlen (nat b)"
  have na: "0 < nat a" "0 < nat b" using ab by simp_all
  have la: "2 ^ (la - 1) \<le> nat a" "nat a < 2 ^ la" "0 < la"
    using bitlen_bounds [OF na(1)] bitlen_pos [OF na(1)] by (simp_all add: la_def)
  have lb: "2 ^ (lb - 1) \<le> nat b" "nat b < 2 ^ lb" "0 < lb"
    using bitlen_bounds [OF na(2)] bitlen_pos [OF na(2)] by (simp_all add: lb_def)
  have ra: "(2::rat) ^ (la - 1) \<le> of_int a" "(of_int a :: rat) < 2 ^ la"
  proof -
    have "(of_nat (2 ^ (la - 1)) :: rat) \<le> of_nat (nat a)" using la(1) by (simp only: of_nat_le_iff)
    then show "(2::rat) ^ (la - 1) \<le> of_int a" using ab(1) by simp
    have "(of_nat (nat a) :: rat) < of_nat (2 ^ la)" using la(2) by (simp only: of_nat_less_iff)
    then show "(of_int a :: rat) < 2 ^ la" using ab(1) by simp
  qed
  have rb: "(2::rat) ^ (lb - 1) \<le> of_int b" "(of_int b :: rat) < 2 ^ lb"
  proof -
    have "(of_nat (2 ^ (lb - 1)) :: rat) \<le> of_nat (nat b)" using lb(1) by (simp only: of_nat_le_iff)
    then show "(2::rat) ^ (lb - 1) \<le> of_int b" using ab(2) by simp
    have "(of_nat (nat b) :: rat) < of_nat (2 ^ lb)" using lb(2) by (simp only: of_nat_less_iff)
    then show "(of_int b :: rat) < 2 ^ lb" using ab(2) by simp
  qed
  define e where "e = int la - int lb"
  have bpos: "(0::rat) < of_int b" using ab(2) by simp
  have lower: "(2::rat) powi (e - 1) \<le> x"
  proof -
    have "e - 1 = int (la - 1) - int lb" using la(3) by (simp add: e_def)
    then have "(2::rat) powi (e - 1) = 2 ^ (la - 1) / 2 ^ lb"
      by (simp only: powi_diff_nat)
    also have "\<dots> \<le> of_int a / 2 ^ lb"
      using ra(1) by (simp add: divide_right_mono)
    also have "\<dots> \<le> of_int a / of_int b"
      using rb(2) bpos ab(1) by (simp add: frac_le)
    finally show ?thesis using ab(3) by simp
  qed
  have upper: "x < (2::rat) powi (e + 1)"
  proof -
    have "x = of_int a / of_int b" by (rule ab(3))
    also have "\<dots> < 2 ^ la / of_int b"
      using ra(2) bpos by (simp add: divide_strict_right_mono)
    also have "\<dots> \<le> 2 ^ la / 2 ^ (lb - 1)"
      using rb(1) by (simp add: frac_le)
    also have "\<dots> = (2::rat) powi (e + 1)"
    proof -
      have "e + 1 = int la - int (lb - 1)" using lb(3) by (simp add: e_def)
      then show ?thesis by (simp only: powi_diff_nat)
    qed
    finally show ?thesis .
  qed
  have i: "ilog2 x = (if 2 powi e \<le> x then e else e - 1)"
    by (simp add: ilog2_def q Let_def e_def la_def lb_def)
  show ?thesis
  proof (cases "2 powi e \<le> x")
    case True
    with i upper show ?thesis by simp
  next
    case False
    with i lower show ?thesis by simp
  qed
qed

lemma ilog2_unique:
  assumes "0 < x" and "2 powi e \<le> x" and "x < 2 powi (e + 1)"
  shows "ilog2 x = e"
proof -
  from ilog2_bounds [OF assms(1)]
  have i: "2 powi (ilog2 x) \<le> x" "x < 2 powi (ilog2 x + 1)" by simp_all
  have "\<not> e + 1 \<le> ilog2 x"
  proof
    assume "e + 1 \<le> ilog2 x"
    then have "(2::rat) powi (e + 1) \<le> 2 powi (ilog2 x)"
      by (intro power_int_increasing) simp_all
    with i(1) assms(3) show False by linarith
  qed
  moreover have "\<not> ilog2 x + 1 \<le> e"
  proof
    assume "ilog2 x + 1 \<le> e"
    then have "(2::rat) powi (ilog2 x + 1) \<le> 2 powi e"
      by (intro power_int_increasing) simp_all
    with i(2) assms(2) show False by linarith
  qed
  ultimately show ?thesis by linarith
qed

lemma fl_error:
  assumes "0 \<le> x"
  shows "\<bar>fl x - x\<bar> \<le> x / 2 ^ 53"
proof (cases "x = 0")
  case True
  then show ?thesis by (simp add: fl_def)
next
  case False
  with assms have x: "0 < x" by simp
  define ulp :: rat where "ulp = 2 powi (ilog2 x - 52)"
  define q where "q = x / ulp"
  define m where "m = round_half_even q"
  have u: "0 < ulp" by (simp add: ulp_def)
  have f: "fl x = of_int m * ulp"
    using False by (simp add: fl_def Let_def ulp_def q_def m_def)
  have xq: "x = q * ulp" using u by (simp add: q_def)
  have "(2::rat) powi (ilog2 x) = 2 powi (ilog2 x - 52) * 2 ^ 52"
    by (simp add: power_int_diff)
  with ilog2_bounds [OF x] have "ulp * 2 ^ 52 \<le> x" by (simp add: ulp_def mult.commute)
  then have "2 ^ 52 \<le> q" using u by (simp add: q_def pos_le_divide_eq mult.commute)
  then have "1 / 2 \<le> q / 2 ^ 53" by simp
  with round_half_even_bound [of q] have b: "\<bar>of_int m - q\<bar> \<le> q / 2 ^ 53"
    by (simp add: m_def)
  have "of_int m * ulp - x = (of_int m - q) * ulp"
    using xq by (simp add: left_diff_distrib)
  then have "fl x - x = (of_int m - q) * ulp" by (simp only: f)
  then have "\<bar>fl x - x\<bar> = \<bar>of_int m - q\<bar> * ulp"
    using u by (simp add: abs_mult)
  also have "\<dots> \<le> q / 2 ^ 53 * ulp"
    using b u by (simp add: mult_right_mono)
  also have "\<dots> = x / 2 ^ 53" by (simp add: xq)
  finally show ?thesis .
qed

lemma fl_eqI:
  assumes "0 < x" and "2 powi e \<le> x" and "x < 2 powi (e + 1)"
    and "\<bar>x / 2 powi (e - 52) - of_int m\<bar> < 1 / 2"
  shows "fl x = of_int m * 2 powi (e - 52)"
proof -
  have i: "ilog2 x = e" using assms(1-3) by (rule ilog2_unique)
  have "round_half_even (x / 2 powi (e - 52)) = m" using assms(4) by (rule round_half_even_eqI)
  with assms(1) i show ?thesis by (simp add: fl_def Let_def)
qed

lemma fl_bounds:
  assumes "0 \<le> x"
  shows "(1 - unit_roundoff) * x \<le> fl x \<and> fl x \<le> (1 + unit_roundoff) * x"
proof -
  define d where "d = x / 2 ^ 53"
  have "\<bar>fl x - x\<bar> \<le> d" using fl_error [OF assms] by (simp only: d_def)
  then have b: "x - d \<le> fl x" "fl x \<le> x + d" by linarith+
  have e: "(1 - unit_roundoff) * x = x - d" "(1 + unit_roundoff) * x = x + d"
    by (simp_all add: d_def unit_roundoff_def algebra_simps)
  show ?thesis using b by (simp only: e)
qed

lemma roundoff_range: "0 \<le> 1 - unit_roundoff" "0 \<le> 1 + unit_roundoff"
  by (simp_all add: unit_roundoff_def)

lemma fl_scaled:
  assumes "0 \<le> l" "0 \<le> A" "l * A \<le> a" "a \<le> h * A"
  shows "((1 - unit_roundoff) * l) * A \<le> fl a \<and> fl a \<le> ((1 + unit_roundoff) * h) * A"
proof -
  have "0 \<le> l * A" using assms(1,2) by simp
  with assms(3) have a: "0 \<le> a" by linarith
  from fl_bounds [OF a] have b: "(1 - unit_roundoff) * a \<le> fl a" "fl a \<le> (1 + unit_roundoff) * a"
    by simp_all
  have "(1 - unit_roundoff) * (l * A) \<le> (1 - unit_roundoff) * a"
    using assms(3) roundoff_range(1) by (rule mult_left_mono)
  moreover have "(1 + unit_roundoff) * a \<le> (1 + unit_roundoff) * (h * A)"
    using assms(4) roundoff_range(2) by (rule mult_left_mono)
  ultimately show ?thesis using b by (simp add: mult.assoc)
qed

lemma scaled_mult:
  assumes "(0::rat) \<le> l1" "(0::rat) \<le> l2" "(0::rat) \<le> A" "(0::rat) \<le> B"
    and "l1 * A \<le> a" "a \<le> h1 * A" "l2 * B \<le> b" "b \<le> h2 * B"
  shows "(l1 * l2) * (A * B) \<le> a * b \<and> a * b \<le> (h1 * h2) * (A * B)"
proof -
  have la: "0 \<le> l1 * A" using assms(1,3) by simp
  with assms(5) have a: "0 \<le> a" by linarith
  have lb: "0 \<le> l2 * B" using assms(2,4) by simp
  with assms(7) have b: "0 \<le> b" by linarith
  have "(l1 * A) * (l2 * B) \<le> a * b"
    using assms(5,7) a lb by (rule mult_mono)
  moreover have "0 \<le> h1 * A" using a assms(6) by linarith
  then have "a * b \<le> (h1 * A) * (h2 * B)"
    using assms(6,8) b by (intro mult_mono) simp_all
  ultimately show ?thesis by (simp add: mult_ac)
qed

lemma fl_nonneg: "0 \<le> x \<Longrightarrow> 0 \<le> fl x"
proof -
  assume x: "0 \<le> x"
  have "0 \<le> (1 - unit_roundoff) * x" using x roundoff_range(1) by simp
  with fl_bounds [OF x] show ?thesis by linarith
qed

lemma totalCost_bounds:
  "(1 - 5 * unit_roundoff) * exact_cost u \<le> totalCost u
   \<and> totalCost u \<le> (1 + 5 * unit_roundoff) * exact_cost u"
proof -
  define lo where "lo = 1 - unit_roundoff"
  define hi where "hi = 1 + unit_roundoff"
  define P :: rat where "P = of_nat (prompt_tokens u) / 1000"
  define C :: rat where "C = of_nat (completion_tokens u) / 1000"
  define K1 :: rat where "K1 = 1 / 10000"
  define K2 :: rat where "K2 = 2 / 10000"
  have lo: "0 \<le> lo" "0 \<le> lo * 1" using roundoff_range by (simp_all add: lo_def)
  have nn: "0 \<le> P" "0 \<le> C" "0 \<le> K1" "0 \<le> K2" "0 \<le> P * K1" "0 \<le> C * K2"
    by (simp_all add: P_def C_def K1_def K2_def)
  have one: "\<And>x::rat. 1 * x \<le> x" "\<And>x::rat. x \<le> 1 * x" by simp_all
  have a: "(lo * 1) * P \<le> fl P" "fl P \<le> (hi * 1) * P"
    using fl_scaled [OF _ nn(1) one(1) one(2)] by (simp_all add: lo_def hi_def)
  have c: "(lo * 1) * C \<le> fl C" "fl C \<le> (hi * 1) * C"
    using fl_scaled [OF _ nn(2) one(1) one(2)] by (simp_all add: lo_def hi_def)
  have k1: "(lo * 1) * K1 \<le> fl K1" "fl K1 \<le> (hi * 1) * K1"
    using fl_scaled [OF _ nn(3) one(1) one(2)] by (simp_all add: lo_def hi_def)
  have k2: "(lo * 1) * K2 \<le> fl K2" "fl K2 \<le> (hi * 1) * K2"
    using fl_scaled [OF _ nn(4) one(1) one(2)] by (simp_all add: lo_def hi_def)
  define l2 where "l2 = (lo * 1) * (lo * 1)"
  define h2 where "h2 = (hi * 1) * (hi * 1)"
  have l2: "0 \<le> l2" using lo by (simp add: l2_def)
  have ak: "l2 * (P * K1) \<le> fl P * fl K1" "fl P * fl K1 \<le> h2 * (P * K1)"
    using scaled_mult [OF lo(2) lo(2) nn(1) nn(3) a k1] by (simp_all add: l2_def h2_def)
  have ck: "l2 * (C * K2) \<le> fl C * fl K2" "fl C * fl K2 \<le> h2 * (C * K2)"
    using scaled_mult [OF lo(2) lo(2) nn(2) nn(4) c k2] by (simp_all add: l2_def h2_def)
  define l3 where "l3 = lo * l2"
  define h3 where "h3 = hi * h2"
  have l3: "0 \<le> l3" using lo l2 by (simp add: l3_def)
  have pc: "l3 * (P * K1) \<le> fl (fl P * fl K1)" "fl (fl P * fl K1) \<le> h3 * (P * K1)"
    using fl_scaled [OF l2 nn(5) ak] by (simp_all add: l3_def h3_def lo_def hi_def)
  have cc: "l3 * (C * K2) \<le> fl (fl C * fl K2)" "fl (fl C * fl K2) \<le> h3 * (C * K2)"
    using fl_scaled [OF l2 nn(6) ck] by (simp_all add: l3_def h3_def lo_def hi_def)
  define X where "X = P * K1 + C * K2"
  have X: "0 \<le> X" using nn by (simp add: X_def)
  have s: "l3 * X \<le> fl (fl P * fl K1) + fl (fl C * fl K2)"
          "fl (fl P * fl K1) + fl (fl C * fl K2) \<le> h3 * X"
    using pc cc by (simp_all add: X_def distrib_left)
  have t: "(lo * l3) * X \<le> fl (fl (fl P * fl K1) + fl (fl C * fl K2))"
          "fl (fl (fl P * fl K1) + fl (fl C * fl K2)) \<le> (hi * h3) * X"
    using fl_scaled [OF l3 X s] by (simp_all add: lo_def hi_def)
  have tc: "totalCost u = fl (fl (fl P * fl K1) + fl (fl C * fl K2))"
    by (simp add: totalCost_def fadd_def fmul_def fdiv_def Let_def P_def C_def K1_def K2_def)
  have ex: "exact_cost u = X"
    by (simp add: exact_cost_def X_def P_def C_def K1_def K2_def)
  have n1: "1 - 5 * unit_roundoff \<le> lo * l3"
    by (simp add: l3_def l2_def lo_def unit_roundoff_def)
  have n2: "hi * h3 \<le> 1 + 5 * unit_roundoff"
    by (simp add: h3_def h2_def hi_def unit_roundoff_def)
  have "(1 - 5 * unit_roundoff) * X \<le> (lo * l3) * X"
    using n1 X by (rule mult_right_mono)
  moreover have "(hi * h3) * X \<le> (1 + 5 * unit_roundoff) * X"
    using n2 X by (rule mult_right_mono)
  ultimately show ?thesis using t by (simp only: tc ex) linarith
qed

lemma exact_cost_tenths:
  "exact_cost u * 10 ^ 6 = of_nat (prompt_tokens u + 2 * completion_tokens u) / 10"
  by (simp add: exact_cost_def field_simps)

lemma cost_rounding:
  assumes "prompt_tokens u < 2 ^ 32" "completion_tokens u < 2 ^ 32"
  shows "0 \<le> \<lfloor>totalCost u * 10 ^ 6 + 1 / 2\<rfloor>
         \<and> \<bar>of_int \<lfloor>totalCost u * 10 ^ 6 + 1 / 2\<rfloor> / 10 ^ 6 - exact_cost u\<bar> \<le> 1 / (2 * 10 ^ 6)"
proof -
  define k where "k = prompt_tokens u + 2 * completion_tokens u"
  define y where "y = totalCost u * 10 ^ 6"
  define n where "n = \<lfloor>y + 1 / 2\<rfloor>"
  define X where "X = exact_cost u * 10 ^ 6"
  have k: "k < 2 ^ 34" using assms by (simp add: k_def)
  have Xk: "X = of_nat k / 10" unfolding X_def k_def by (rule exact_cost_tenths)
  have X0: "0 \<le> X" by (simp add: Xk)
  from totalCost_bounds [of u]
  have b: "(1 - 5 * unit_roundoff) * exact_cost u \<le> totalCost u"
          "totalCost u \<le> (1 + 5 * unit_roundoff) * exact_cost u" by simp_all
  have "(1 - 5 * unit_roundoff) * exact_cost u * 10 ^ 6 \<le> totalCost u * 10 ^ 6"
    using b(1) by (simp add: mult_right_mono)
  then have lo: "X - 5 * unit_roundoff * X \<le> y"
    by (simp add: X_def y_def algebra_simps)
  have "totalCost u * 10 ^ 6 \<le> (1 + 5 * unit_roundoff) * exact_cost u * 10 ^ 6"
    using b(2) by (simp add: mult_right_mono)
  then have hi: "y \<le> X + 5 * unit_roundoff * X"
    by (simp add: X_def y_def algebra_simps)
  have "(of_nat k :: rat) < of_nat (2 ^ 34)" using k by (simp only: of_nat_less_iff)
  then have "(of_nat k :: rat) < 2 ^ 34" by simp
  then have small: "5 * unit_roundoff * X < 1 / 10"
    by (simp add: Xk unit_roundoff_def)
  have y: "X - 1 / 10 < y" "y < X + 1 / 10" using lo hi small by linarith+
  have fl: "of_int n \<le> y + 1 / 2" "y + 1 / 2 < of_int n + 1"
    unfolding n_def by linarith+
  have "(of_int (10 * n) :: rat) < of_int (int k + 6)"
    using fl(1) y(2) by (simp add: Xk)
  then have u1: "10 * n < int k + 6" by (simp only: of_int_less_iff)
  have "(of_int (int k) :: rat) < of_int (10 * n + 6)"
    using fl(2) y(1) by (simp add: Xk)
  then have u2: "int k < 10 * n + 6" by (simp only: of_int_less_iff)
  from u1 u2 have i: "10 * n \<le> int k + 5" "int k \<le> 10 * n + 5" by linarith+
  have "(of_int (10 * n) :: rat) \<le> of_int (int k + 5)" using i(1) by (simp only: of_int_le_iff)
  moreover have "(of_int (int k) :: rat) \<le> of_int (10 * n + 5)" using i(2) by (simp only: of_int_le_iff)
  ultimately have "10 * (of_int n :: rat) \<le> of_nat k + 5" "(of_nat k :: rat) \<le> 10 * of_int n + 5"
    by simp_all
  then have r: "\<bar>of_int n - X\<bar> \<le> 1 / 2" unfolding Xk by linarith
  have "of_int n / 10 ^ 6 - exact_cost u = (of_int n - X) / 10 ^ 6"
    by (simp add: X_def field_simps)
  then have "\<bar>of_int n / 10 ^ 6 - exact_cost u\<bar> = \<bar>of_int n - X\<bar> / 10 ^ 6"
    by (simp only: abs_divide) simp
  also have "\<dots> \<le> (1 / 2) / 10 ^ 6" using r by (simp add: divide_right_mono)
  finally have main: "\<bar>of_int n / 10 ^ 6 - exact_cost u\<bar> \<le> 1 / (2 * 10 ^ 6)" by simp
  have "0 \<le> y" using lo small X0 y(1) by (simp add: y_def totalCost_def fadd_def fl_nonneg fmul_def fdiv_def)
  then have "0 \<le> n" by (simp add: n_def)
  with main show ?thesis by (simp add: n_def y_def)
qed

lemma digit_value_digit: "d < 10 \<Longrightarrow> digit_value (digit d) = d"
proof -
  assume "d < 10"
  then have "d = 0 \<or> d = 1 \<or> d = 2 \<or> d = 3 \<or> d = 4 \<or> d = 5 \<or> d = 6 \<or> d = 7 \<or> d = 8 \<or> d = 9"
    by arith
  then show ?thesis
    by (elim disjE) (simp_all add: digit_def digit_value_def)
qed

lemma digit_not_point: "d < 10 \<Longrightarrow> digit d \<noteq> CHR ''.''"
proof -
  assume "d < 10"
  then have "d = 0 \<or> d = 1 \<or> d = 2 \<or> d = 3 \<or> d = 4 \<or> d = 5 \<or> d = 6 \<or> d = 7 \<or> d = 8 \<or> d = 9"
    by arith
  then show ?thesis
    by (elim disjE) (simp_all add: digit_def)
qed

lemma read_nat_snoc: "read_nat (s @ [c]) = 10 * read_nat s + digit_value c"
  by (simp add: read_nat_def)

lemma read_nat_show_nat: "read_nat (show_nat n) = n"
proof (induction n rule: show_nat.induct)
  case (1 n)
  show ?case
  proof (cases "n < 10")
    case True
    then show ?thesis
      by (subst show_nat.simps) (simp add: read_nat_def digit_value_digit)
  next
    case False
    with "1.IH" have "read_nat (show_nat (n div 10)) = n div 10" by simp
    with False show ?thesis
      by (subst show_nat.simps) (simp add: read_nat_snoc digit_value_digit)
  qed
qed

lemma show_nat_no_point: "CHR ''.'' \<notin> set (show_nat n)"
proof (induction n rule: show_nat.induct)
  case (1 n)
  show ?case
  proof (cases "n < 10")
    case True
    then show ?thesis
      using digit_not_point [of n] by (subst show_nat.simps) auto
  next
    case False
    with "1.IH" have "CHR ''.'' \<notin> set (show_nat (n div 10))" by simp
    with False show ?thesis
      using digit_not_point [of "n mod 10"] by (subst show_nat.simps) auto
  qed
qed

lemma read_nat_zeros: "read_nat (replicate z CHR ''0'' @ s) = read_nat s"
  by (induction z) (simp_all add: read_nat_def digit_value_def)

lemma takeWhile_point:
  "CHR ''.'' \<notin> set ip \<Longrightarrow> takeWhile (\<lambda>c. c \<noteq> CHR ''.'') (ip @ ''.'' @ fp) = ip"
  by (induction ip) auto

lemma dropWhile_point:
  "CHR ''.'' \<notin> set ip \<Longrightarrow> dropWhile (\<lambda>c. c \<noteq> CHR ''.'') (ip @ ''.'' @ fp) = ''.'' @ fp"
  by (induction ip) auto

lemma read_fixed_point:
  assumes "CHR ''.'' \<notin> set ip"
  shows "read_fixed (ip @ ''.'' @ fp) = of_nat (read_nat (ip @ fp)) / 10 ^ length fp"
proof -
  show ?thesis
    using takeWhile_point [OF assms, of fp] dropWhile_point [OF assms, of fp]
    by (simp add: read_fixed_def)
qed

lemma read_fixed_digits:
  assumes "0 < f"
  shows "read_fixed (fixed_digits n f) = of_nat n / 10 ^ f"
    and "length (drop 1 (dropWhile (\<lambda>c. c \<noteq> CHR ''.'') (fixed_digits n f))) = f"
proof -
  define m where "m = replicate (f + 1 - length (show_nat n)) CHR ''0'' @ show_nat n"
  define k where "k = length m"
  have k: "f < k" by (simp add: k_def m_def)
  have np: "CHR ''.'' \<notin> set m" using show_nat_no_point [of n] by (auto simp: m_def)
  then have np': "CHR ''.'' \<notin> set (take (k - f) m)" by (meson in_set_takeD)
  have fd: "fixed_digits n f = take (k - f) m @ ''.'' @ drop (k - f) m"
    using assms by (simp add: fixed_digits_def Let_def m_def k_def)
  have l': "length m - (k - f) = f" using k by (simp add: k_def)
  then have l: "length (drop (k - f) m) = f" by simp
  have r: "read_nat m = n" by (simp add: m_def read_nat_zeros read_nat_show_nat)
  show "read_fixed (fixed_digits n f) = of_nat n / 10 ^ f"
    using read_fixed_point [OF np', of "drop (k - f) m"] by (simp add: fd l' r)
  have "dropWhile (\<lambda>c. c \<noteq> CHR ''.'') (fixed_digits n f) = ''.'' @ drop (k - f) m"
    unfolding fd using np' by (rule dropWhile_point)
  then show "length (drop 1 (dropWhile (\<lambda>c. c \<noteq> CHR ''.'') (fixed_digits n f))) = f"
    using l by simp
qed

section \<open>Properties of formatDebugInfo\<close>

text \<open>
  The number model on a case where rounding shows: for 1 prompt token and 27 completion
  tokens the exact cost is 0.0000055, the double that the program computes lies just below
  it, and \<open>toFixed(6)\<close> prints 0.000005. Each step is the double that IEEE 754
  arithmetic gives.
\<close>

lemma fl_thousandth: "fl (1 / 1000) = 1152921504606847 / 1152921504606846976"
  using fl_eqI [of "1 / 1000" "- 10" 4611686018427388] by simp

lemma fl_0001: "fl (1 / 10000) = 7378697629483821 / 73786976294838206464"
  using fl_eqI [of "1 / 10000" "- 14" 7378697629483821] by simp

lemma fl_0002: "fl (2 / 10000) = 7378697629483821 / 36893488147419103232"
  using fl_eqI [of "2 / 10000" "- 13" 7378697629483821] by simp

lemma fl_27_thousandths: "fl (27 / 1000) = 7782220156096217 / 288230376151711744"
  using fl_eqI [of "27 / 1000" "- 6" 7782220156096217] by simp

lemma fl_prompt_cost:
  "fl (1152921504606847 / 1152921504606846976 * (7378697629483821 / 73786976294838206464))
     = 7555786372591433 / 75557863725914323419136"
  using fl_eqI [of "1152921504606847 / 1152921504606846976 * (7378697629483821 / 73786976294838206464)"
                   "- 24" 7555786372591433] by simp

lemma fl_completion_cost:
  "fl (7782220156096217 / 288230376151711744 * (7378697629483821 / 36893488147419103232))
     = 6375194751874021 / 1180591620717411303424"
  using fl_eqI [of "7782220156096217 / 288230376151711744 * (7378697629483821 / 36893488147419103232)"
                   "- 18" 6375194751874021] by simp

lemma fl_sum:
  "fl (7555786372591433 / 75557863725914323419136 + 6375194751874021 / 1180591620717411303424)
     = 3246626956972881 / 590295810358705651712"
  using fl_eqI [of "7555786372591433 / 75557863725914323419136 + 6375194751874021 / 1180591620717411303424"
                   "- 18" 6493253913945762] by simp

lemma totalCost_tie:
  "totalCost \<lparr>prompt_tokens = 1, completion_tokens = 27, total_tokens = 28\<rparr>
     = 3246626956972881 / 590295810358705651712"
proof -
  have p: "fdiv (of_nat 1) 1000 = 1152921504606847 / 1152921504606846976"
  proof -
    have "fdiv (of_nat 1) 1000 = fl (1 / 1000)" by (simp add: fdiv_def)
    then show ?thesis by (simp only: fl_thousandth)
  qed
  have c: "fdiv (of_nat 27) 1000 = 7782220156096217 / 288230376151711744"
  proof -
    have "fdiv (of_nat 27) 1000 = fl (27 / 1000)" by (simp add: fdiv_def)
    then show ?thesis by (simp only: fl_27_thousandths)
  qed
  have pc: "fmul (fdiv (of_nat 1) 1000) (fl (1 / 10000)) = 7555786372591433 / 75557863725914323419136"
    by (simp only: p fl_0001 fmul_def fl_prompt_cost)
  have cc: "fmul (fdiv (of_nat 27) 1000) (fl (2 / 10000)) = 6375194751874021 / 1180591620717411303424"
    by (simp only: c fl_0002 fmul_def fl_completion_cost)
  have "totalCost \<lparr>prompt_tokens = 1, completion_tokens = 27, total_tokens = 28\<rparr> =
          fadd (fmul (fdiv (of_nat 1) 1000) (fl (1 / 10000))) (fmul (fdiv (of_nat 27) 1000) (fl (2 / 10000)))"
    by (simp only: totalCost_def Let_def usage.simps)
  then show ?thesis
    by (simp only: pc cc fadd_def fl_sum)
qed

lemma toFixed_tie:
  "toFixed (totalCost \<lparr>prompt_tokens = 1, completion_tokens = 27, total_tokens = 28\<rparr>) 6 = ''0.000005''
   \<and> exact_cost \<lparr>prompt_tokens = 1, completion_tokens = 27, total_tokens = 28\<rparr> = 55 / 10 ^ 7"
proof -
  have f: "\<lfloor>(3246626956972881 / 590295810358705651712 :: rat) * 10 ^ 6 + 1 / 2\<rfloor> = 5"
    by (rule floor_unique) simp_all
  have n: "nat \<lfloor>totalCost \<lparr>prompt_tokens = 1, completion_tokens = 27, total_tokens = 28\<rparr> * 10 ^ 6 + 1 / 2\<rfloor> = 5"
    by (simp only: totalCost_tie f nat_numeral)
  have z: "replicate 6 CHR ''0'' = ''000000''" "replicate 5 CHR ''0'' = ''00000''"
    by (simp_all add: eval_nat_numeral)
  have d: "fixed_digits 5 6 = ''0.000005''"
    by (simp add: fixed_digits_def show_nat.simps [of 5] digit_def Let_def z)
  have "toFixed (totalCost \<lparr>prompt_tokens = 1, completion_tokens = 27, total_tokens = 28\<rparr>) 6
      = ''0.000005''"
    by (simp only: toFixed_def n d)
  then show ?thesis by (simp add: exact_cost_def)
qed

text \<open>
  C4. For a response that reports its usage, with token counts below \<open>2^32\<close>,
  \<open>formatDebugInfo\<close> resolves, without logging, to the debug string with the model name,
  the three token counts in decimal, and a cost labelled "(Free)". The cost is printed with
  six digits after the point, and the number printed differs from
  promptTokens/1000 * 0.0001 + completionTokens/1000 * 0.0002 by at most half a unit of the
  sixth place: it is that cost rounded to six decimal places. For the usage 100, 50, 150
  the printed cost is $0.000020.
\<close>

theorem formatDebugInfo_cost:
  assumes "rusage r = Some u"
    and "prompt_tokens u < 2 ^ 32" and "completion_tokens u < 2 ^ 32" and "total_tokens u < 2 ^ 32"
  shows "\<exists>n. formatDebugInfo (Some r) =
               (Inr (''**Debug Info:**'' @ newline
                   @ ''- Model: '' @ rmodel r @ newline
                   @ ''- Prompt Tokens: '' @ show_nat (prompt_tokens u) @ newline
                   @ ''- Completion Tokens: '' @ show_nat (completion_tokens u) @ newline
                   @ ''- Total Tokens: '' @ show_nat (total_tokens u) @ newline
                   @ ''- Estimated Cost: $'' @ fixed_digits n 6 @ '' (Free)''), [])
             \<and> length (drop 1 (dropWhile (\<lambda>c. c \<noteq> CHR ''.'') (fixed_digits n 6))) = 6
             \<and> read_fixed (fixed_digits n 6) = of_nat n / 10 ^ 6
             \<and> \<bar>(of_nat n :: rat) / 10 ^ 6
                  - (of_nat (prompt_tokens u) / 1000 * (1 / 10000)
                     + of_nat (completion_tokens u) / 1000 * (2 / 10000))\<bar> \<le> 1 / (2 * 10 ^ 6)
             \<and> read_nat (show_nat (prompt_tokens u)) = prompt_tokens u
             \<and> read_nat (show_nat (completion_tokens u)) = completion_tokens u
             \<and> read_nat (show_nat (total_tokens u)) = total_tokens u"
proof -
  define n where "n = nat \<lfloor>totalCost u * 10 ^ 6 + 1 / 2\<rfloor>"
  from cost_rounding [OF assms(2,3)]
  have c: "0 \<le> \<lfloor>totalCost u * 10 ^ 6 + 1 / 2\<rfloor>"
    "\<bar>of_int \<lfloor>totalCost u * 10 ^ 6 + 1 / 2\<rfloor> / 10 ^ 6 - exact_cost u\<bar> \<le> 1 / (2 * 10 ^ 6)"
    by simp_all
  have "(of_nat n :: rat) = of_int \<lfloor>totalCost u * 10 ^ 6 + 1 / 2\<rfloor>"
    using c(1) by (simp add: n_def)
  with c(2) have b: "\<bar>(of_nat n :: rat) / 10 ^ 6
                  - (of_nat (prompt_tokens u) / 1000 * (1 / 10000)
                     + of_nat (completion_tokens u) / 1000 * (2 / 10000))\<bar> \<le> 1 / (2 * 10 ^ 6)"
    by (simp only: exact_cost_def)
  have f: "formatDebugInfo (Some r) =
               (Inr (''**Debug Info:**'' @ newline
                   @ ''- Model: '' @ rmodel r @ newline
                   @ ''- Prompt Tokens: '' @ show_nat (prompt_tokens u) @ newline
                   @ ''- Completion Tokens: '' @ show_nat (completion_tokens u) @ newline
                   @ ''- Total Tokens: '' @ show_nat (total_tokens u) @ newline
                   @ ''- Estimated Cost: $'' @ fixed_digits n 6 @ '' (Free)''), [])"
    using assms(1) by (simp add: formatDebugInfo_cases formatDebugInfo_try_def toFixed_def n_def)
  have r: "read_fixed (fixed_digits n 6) = of_nat n / 10 ^ 6"
    by (rule read_fixed_digits(1)) simp
  have l: "length (drop 1 (dropWhile (\<lambda>c. c \<noteq> CHR ''.'') (fixed_digits n 6))) = 6"
    by (rule read_fixed_digits(2)) simp
  from f r l b show ?thesis
    by (intro exI [of _ n]) (simp only: read_nat_show_nat simp_thms)
qed

theorem formatDebugInfo_cost_witness:
  "rusage (reply [hello_choice]) = Some sample_usage
   \<and> prompt_tokens sample_usage = 100 \<and> completion_tokens sample_usage = 50
   \<and> total_tokens sample_usage = 150
   \<and> formatDebugInfo (Some (reply [hello_choice])) =
       (Inr (''**Debug Info:**'' @ newline
           @ ''- Model: google/gemini-flash-1.5-8b-exp'' @ newline
           @ ''- Prompt Tokens: 100'' @ newline
           @ ''- Completion Tokens: 50'' @ newline
           @ ''- Total Tokens: 150'' @ newline
           @ ''- Estimated Cost: $0.000020 (Free)''), [])"
proof -
  have u: "rusage (reply [hello_choice]) = Some sample_usage" by (simp add: reply_def)
  have p: "prompt_tokens sample_usage < 2 ^ 32" "completion_tokens sample_usage < 2 ^ 32"
    "total_tokens sample_usage < 2 ^ 32"
    by (simp_all add: sample_usage_def)
  from formatDebugInfo_cost [OF u p] obtain n where
    f: "formatDebugInfo (Some (reply [hello_choice])) =
               (Inr (''**Debug Info:**'' @ newline
                   @ ''- Model: '' @ rmodel (reply [hello_choice]) @ newline
                   @ ''- Prompt Tokens: '' @ show_nat (prompt_tokens sample_usage) @ newline
                   @ ''- Completion Tokens: '' @ show_nat (completion_tokens sample_usage) @ newline
                   @ ''- Total Tokens: '' @ show_nat (total_tokens sample_usage) @ newline
                   @ ''- Estimated Cost: $'' @ fixed_digits n 6 @ '' (Free)''), [])"
    and b: "\<bar>(of_nat n :: rat) / 10 ^ 6
                  - (of_nat (prompt_tokens sample_usage) / 1000 * (1 / 10000)
                     + of_nat (completion_tokens sample_usage) / 1000 * (2 / 10000))\<bar> \<le> (1::rat) / (2 * 10 ^ 6)"
    by blast
  from b have "\<bar>(of_nat n :: rat) - 20\<bar> \<le> 1 / 2"
    by (simp add: sample_usage_def abs_le_iff field_simps)
  then have "(of_nat n :: rat) < of_nat 21" "(of_nat 19 :: rat) < of_nat n" by linarith+
  then have "n < 21" "19 < n" by (simp_all only: of_nat_less_iff)
  then have n: "n = 20" by linarith
  have z: "replicate 5 CHR ''0'' = ''00000''" "replicate 4 CHR ''0'' = ''0000''"
    by (simp_all add: eval_nat_numeral)
  have d: "fixed_digits 20 6 = ''0.000020''"
    by (simp add: fixed_digits_def show_nat.simps digit_def Let_def z)
  have s: "show_nat 100 = ''100''" "show_nat 50 = ''50''" "show_nat 150 = ''150''"
    by (simp_all add: show_nat.simps digit_def)
  from f show ?thesis
    by (simp add: n d s u reply_def sample_usage_def)
qed

end
